theory Spec2Isabelle
  imports
    Main
    "HOL-Library.Char_ord"
    "HOL-Library.List_Lexorder"
    "HOL-Library.AList_Mapping"
    "HOL-Library.Multiset"
begin

section \<open>The diff engine (diff/diff.go)\<close>

text \<open>
  Go strings are byte sequences compared bytewise; \<open>string\<close> with the order of
  \<open>Char_ord\<close> lifted lexicographically to lists is the order \<open>sort.Strings\<close> uses.
\<close>

type_synonym error = string

text \<open>
  \<open>FileHash\<close> and \<open>Diff\<close> both have a field \<open>Path\<close> in the source; the fields of
  \<open>FileHash\<close> carry the prefix \<open>fh_\<close> here.
\<close>

record FileHash =
  fh_Path :: string
  fh_Hash :: string

datatype DiffStatus = Match | MissingSource | MissingDestination | Mismatch

record Diff =
  Path :: string
  SrcHash :: string
  DstHash :: string
  Status :: DiffStatus

text \<open>
  The two loops \<open>srcMap[fh.Path] = fh.Hash\<close>: a later entry of the list overwrites an
  earlier one with the same path.
\<close>

definition hashMap :: "FileHash list \<Rightarrow> (string, string) mapping" where
  "hashMap l = fold (\<lambda>fh m. Mapping.update (fh_Path fh) (fh_Hash fh) m) l Mapping.empty"

text \<open>
  The two loops over \<open>range srcMap\<close> and \<open>range dstMap\<close> that fill \<open>pathSet\<close>: whatever
  order Go visits the keys in, the set that results is the union of the key sets.
\<close>

definition pathSet :: "(string, string) mapping \<Rightarrow> (string, string) mapping \<Rightarrow> string set" where
  "pathSet srcMap dstMap = Mapping.keys srcMap \<union> Mapping.keys dstMap"

text \<open>
  A comma-ok lookup \<open>h, ok := m[path]\<close>: a missing key reads as the zero value, the
  empty string, with \<open>ok\<close> false.
\<close>

definition commaOk :: "(string, string) mapping \<Rightarrow> string \<Rightarrow> string \<times> bool" where
  "commaOk m path = (case Mapping.lookup m path of None \<Rightarrow> ('''', False) | Some h \<Rightarrow> (h, True))"

text \<open>The body of the last loop: the \<open>switch\<close> picks the first case that holds.\<close>

definition diffOf :: "(string, string) mapping \<Rightarrow> (string, string) mapping \<Rightarrow> string \<Rightarrow> Diff" where
  "diffOf srcMap dstMap path =
     (let (sHash, sOk) = commaOk srcMap path;
          (dHash, dOk) = commaOk dstMap path;
          status = (if \<not> sOk then MissingSource
                    else if \<not> dOk then MissingDestination
                    else if sHash \<noteq> dHash then Mismatch
                    else Match)
      in \<lparr>Path = path, SrcHash = sHash, DstHash = dHash, Status = status\<rparr>)"

text \<open>
  \<open>ComputeDiff\<close>, with the slice \<open>paths\<close> as the loop over \<open>range pathSet\<close> leaves it
  before \<open>sort.Strings\<close>: Go fixes no order for that loop, so the slice is a parameter
  here, any duplicate-free enumeration of the set (\<open>rangeOrder\<close>).
\<close>

definition rangeOrder :: "string set \<Rightarrow> string list \<Rightarrow> bool" where
  "rangeOrder S ks \<longleftrightarrow> distinct ks \<and> set ks = S"

definition ComputeDiffFrom :: "string list \<Rightarrow> FileHash list \<Rightarrow> FileHash list \<Rightarrow> Diff list" where
  "ComputeDiffFrom ks srcList dstList =
     (let srcMap = hashMap srcList;
          dstMap = hashMap dstList;
          paths = sort ks
      in map (diffOf srcMap dstMap) paths)"

text \<open>
  \<open>ComputeDiff\<close> itself: sorting any enumeration of a finite set gives its sorted list
  (lemma \<open>ComputeDiffFrom_any_order\<close> below), so the result does not depend on the
  iteration order and is written with \<open>sorted_list_of_set\<close>.
\<close>

definition ComputeDiff :: "FileHash list \<Rightarrow> FileHash list \<Rightarrow> Diff list" where
  "ComputeDiff srcList dstList =
     (let srcMap = hashMap srcList;
          dstMap = hashMap dstList;
          paths = sorted_list_of_set (pathSet srcMap dstMap)
      in map (diffOf srcMap dstMap) paths)"

text \<open>
  What "the hash of the last occurrence of a path in a list" means, written from the
  words and not from the code: the specification side of the comparison with \<open>hashMap\<close>.
\<close>

definition lastOccurrence :: "FileHash list \<Rightarrow> string \<Rightarrow> string option" where
  "lastOccurrence l p =
     (let occ = filter (\<lambda>fh. fh_Path fh = p) l
      in if occ = [] then None else Some (fh_Hash (last occ)))"

subsection \<open>Inventory producers\<close>

text \<open>
  \<open>ListLocal\<close> passes a callback to \<open>filepath.WalkDir\<close>. The file system is the
  environment: one \<open>Visit\<close> per call of the callback, holding what \<open>WalkDir\<close> hands
  over (\<open>walkErr\<close>, \<open>isDir\<close>) and what each later step on that entry gives
  (\<open>filepath.Rel\<close>, \<open>os.Open\<close>, \<open>io.Copy\<close> into the MD5 state, the hex digest).
\<close>

record Visit =
  walkErr :: "error option"
  isDir :: bool
  relResult :: "error + string"
  openErr :: "error option"
  copyErr :: "error option"
  md5hex :: string

text \<open>The callback: \<open>results\<close> is the captured slice, returned updated; \<open>Inl\<close> is a returned error.\<close>

definition walkFn :: "FileHash list \<Rightarrow> Visit \<Rightarrow> error + FileHash list" where
  "walkFn results v =
     (case walkErr v of Some e \<Rightarrow> Inl e
      | None \<Rightarrow>
        if isDir v then Inr results
        else (case relResult v of Inl e \<Rightarrow> Inl e
              | Inr rel \<Rightarrow>
                (case openErr v of Some e \<Rightarrow> Inl e
                 | None \<Rightarrow>
                   (case copyErr v of Some e \<Rightarrow> Inl e
                    | None \<Rightarrow>
                      Inr (results @ [\<lparr>fh_Path = rel, fh_Hash = md5hex v\<rparr>])))))"

text \<open>
  \<open>WalkDir\<close> calls the callback entry by entry and stops at the first error it returns
  (the callback never returns \<open>SkipDir\<close> or \<open>SkipAll\<close>).
\<close>

fun WalkDir :: "Visit list \<Rightarrow> FileHash list \<Rightarrow> error + FileHash list" where
  "WalkDir [] results = Inr results"
| "WalkDir (v # vs) results =
     (case walkFn results v of Inl e \<Rightarrow> Inl e | Inr results' \<Rightarrow> WalkDir vs results')"

definition TrimRight :: "string \<Rightarrow> string \<Rightarrow> string" where
  "TrimRight s cutset = rev (dropWhile (\<lambda>c. c \<in> set cutset) (rev s))"

definition ListLocal :: "(string \<Rightarrow> Visit list) \<Rightarrow> string \<Rightarrow> error + FileHash list" where
  "ListLocal fs dir =
     (case WalkDir (fs (TrimRight dir ''/'')) [] of
        Inl e \<Rightarrow> Inl e
      | Inr results \<Rightarrow> Inr results)"

text \<open>
  The words of the specification about a walk, for the comparison with \<open>ListLocal\<close>: a
  per-file step fails at a visit when the walk hands over an error or, for an entry that
  is not a directory, when making the path relative, opening or reading fails; a regular
  file is listed under its relative path with the digest of its content.
\<close>

definition stepFails :: "Visit \<Rightarrow> bool" where
  "stepFails v \<longleftrightarrow>
     walkErr v \<noteq> None \<or>
     (\<not> isDir v \<and> (isl (relResult v) \<or> openErr v \<noteq> None \<or> copyErr v \<noteq> None))"

definition fileEntry :: "Visit \<Rightarrow> FileHash" where
  "fileEntry v = \<lparr>fh_Path = projr (relResult v), fh_Hash = md5hex v\<rparr>"

text \<open>
  \<open>ListRemote\<close> runs one command through \<open>ExecCommand\<close>, a variable of the package that
  tests replace. The environment is that function: for the command line it returns what
  \<open>cmd.Run\<close> returned, the lines \<open>bufio.Scanner\<close> then yields from the combined output,
  and what \<open>s.Err()\<close> is after the loop.
\<close>

record CmdResult =
  runErr :: "error option"
  scanned :: "string list"
  scanErr :: "error option"

text \<open>\<open>strings.SplitN(addr, ":", 2)\<close>: cut at the first colon, if there is one.\<close>

definition SplitN2 :: "string \<Rightarrow> string list" where
  "SplitN2 addr =
     (case dropWhile (\<lambda>c. c \<noteq> CHR '':'') addr of
        [] \<Rightarrow> [addr]
      | _ # rest \<Rightarrow> [takeWhile (\<lambda>c. c \<noteq> CHR '':'') addr, rest])"

text \<open>
  \<open>strings.Fields\<close> splits around runs of white space as \<open>unicode.IsSpace\<close> defines it.
  \<open>spaceLen s\<close> is the length in bytes of the white-space rune at the head of \<open>s\<close> in
  UTF-8, and 0 when there is none: tab, LF, VT, FF, CR, space, U+0085, U+00A0, U+1680,
  U+2000 to U+200A, U+2028, U+2029, U+202F, U+205F, U+3000.
\<close>

definition spaceLen :: "string \<Rightarrow> nat" where
  "spaceLen s =
     (let bs = map (of_char :: char \<Rightarrow> nat) (take 3 s) in
      case bs of
        [] \<Rightarrow> 0
      | b0 # r \<Rightarrow>
          if b0 = 32 \<or> (9 \<le> b0 \<and> b0 \<le> 13) then 1
          else (case r of
                  [] \<Rightarrow> 0
                | b1 # r' \<Rightarrow>
                    if b0 = 194 \<and> (b1 = 133 \<or> b1 = 160) then 2
                    else (case r' of
                            [] \<Rightarrow> 0
                          | b2 # _ \<Rightarrow>
                              if (b0 = 225 \<and> b1 = 154 \<and> b2 = 128)
                                 \<or> (b0 = 226 \<and> b1 = 128 \<and>
                                     ((128 \<le> b2 \<and> b2 \<le> 138) \<or> b2 = 168 \<or> b2 = 169 \<or> b2 = 175))
                                 \<or> (b0 = 226 \<and> b1 = 129 \<and> b2 = 159)
                                 \<or> (b0 = 227 \<and> b1 = 128 \<and> b2 = 128)
                              then 3 else 0)))"

text \<open>\<open>FieldsFrom cur s\<close>: \<open>cur\<close> is the field being read, \<open>None\<close> between fields.\<close>

function FieldsFrom :: "string option \<Rightarrow> string \<Rightarrow> string list" where
  "FieldsFrom cur [] = (case cur of None \<Rightarrow> [] | Some f \<Rightarrow> [f])"
| "FieldsFrom cur (c # s) =
     (if spaceLen (c # s) = 0
      then FieldsFrom (Some ((case cur of None \<Rightarrow> [] | Some f \<Rightarrow> f) @ [c])) s
      else (case cur of None \<Rightarrow> [] | Some f \<Rightarrow> [f])
           @ FieldsFrom None (drop (spaceLen (c # s)) (c # s)))"
  by pat_completeness auto
termination
  by (relation "measure (\<lambda>(cur, s). length s)") auto

definition Fields :: "string \<Rightarrow> string list" where
  "Fields s = FieldsFrom None s"

definition TrimPrefix :: "string \<Rightarrow> string \<Rightarrow> string" where
  "TrimPrefix s pre = (if take (length pre) s = pre then drop (length pre) s else s)"

text \<open>The body of the scanning loop: a line with fewer than two fields is skipped.\<close>

definition parseLine :: "FileHash list \<Rightarrow> string \<Rightarrow> FileHash list" where
  "parseLine results line =
     (let fields = Fields line in
      if length fields < 2 then results
      else let h = fields ! 0;
               file = fields ! 1;
               rel = TrimPrefix file ''./''
           in results @ [\<lparr>fh_Path = rel, fh_Hash = h\<rparr>])"

text \<open>The command line sent to the remote shell, \<open>fmt.Sprintf\<close> of the base directory.\<close>

definition remoteCommand :: "string \<Rightarrow> string" where
  "remoteCommand base = ''cd '' @ base @ '' && find . -type f -exec md5sum {} +''"

definition ListRemote :: "(string \<Rightarrow> string list \<Rightarrow> CmdResult) \<Rightarrow> string \<Rightarrow> error + FileHash list" where
  "ListRemote ExecCommand addr =
     (let parts = SplitN2 addr in
      if length parts \<noteq> 2 then Inl (''invalid remote address '' @ addr)
      else
        let host = parts ! 0;
            base = TrimRight (parts ! 1) ''/'';
            cmd = ExecCommand ''ssh'' [host, remoteCommand base]
        in case runErr cmd of
             Some e \<Rightarrow> Inl (''ssh error: '' @ e)
           | None \<Rightarrow>
               let results = fold (\<lambda>line rs. parseLine rs line) (scanned cmd) []
               in case scanErr cmd of
                    Some e \<Rightarrow> Inl e
                  | None \<Rightarrow> Inr results)"

subsection \<open>The remote side of \<open>ListRemote\<close>\<close>

text \<open>
  What \<open>ExecCommand("ssh", host, cmd)\<close> does is not Go code: \<open>ssh\<close> has the remote shell
  run the command line, and \<open>cmd.Run\<close> reports a non-zero exit status as an error. The
  per-file steps of a remote listing happen there, so the environment is modelled as far
  as the command line of \<open>remoteCommand\<close> reaches: a host maps a directory (as given to
  \<open>cd\<close>) to what \<open>find . -type f\<close> reaches under it, or to nothing if \<open>cd\<close> fails. A
  \<open>RemoteFile\<close> is a regular file, with its name as \<open>find .\<close> prints it and what \<open>md5sum\<close>
  does with it, an error message or the digest; \<open>findErrs\<close> are the error lines of \<open>find\<close>
  itself, one per directory it cannot read.
\<close>

record RemoteFile =
  rf_name :: string
  rf_md5 :: "error + string"

record RemoteTree =
  files :: "RemoteFile list"
  findErrs :: "string list"

type_synonym RemoteHost = "string \<Rightarrow> RemoteTree option"

text \<open>
  \<open>md5sum\<close> prints digest, two spaces and name on standard output, or a complaint on
  standard error and then exits non-zero; \<open>find\<close> exits non-zero if an invocation of
  \<open>-exec ... +\<close> did, or if it met an error of its own. \<open>ListRemote\<close> sends both streams
  to one buffer.
\<close>

definition md5Line :: "RemoteFile \<Rightarrow> string" where
  "md5Line f =
     (case rf_md5 f of
        Inr h \<Rightarrow> h @ ''  '' @ rf_name f
      | Inl e \<Rightarrow> ''md5sum: '' @ rf_name f @ '': '' @ e)"

definition findOutput :: "RemoteTree \<Rightarrow> string list" where
  "findOutput t = map md5Line (files t) @ findErrs t"

definition findStatus :: "RemoteTree \<Rightarrow> nat" where
  "findStatus t =
     (if findErrs t = [] \<and> list_all (\<lambda>f. \<not> isl (rf_md5 f)) (files t) then 0 else 1)"

text \<open>
  The shell, as far as command lines of words without quoting or expansion go: words are
  separated by blanks, \<open>;\<close> is a word of its own; \<open>;\<close> separates lists that run one after
  the other, \<open>&&\<close> within a list runs the next command only after exit status 0; the
  exit status is that of the last command run.
\<close>

fun shLex :: "string \<Rightarrow> string \<Rightarrow> string list" where
  "shLex cur [] = (if cur = [] then [] else [cur])"
| "shLex cur (c # s) =
     (if c = CHR '' '' then (if cur = [] then [] else [cur]) @ shLex [] s
      else if c = CHR '';'' then (if cur = [] then [] else [cur]) @ [[c]] @ shLex [] s
      else shLex (cur @ [c]) s)"

fun splitOn :: "string \<Rightarrow> string list \<Rightarrow> string list list" where
  "splitOn sep [] = [[]]"
| "splitOn sep (w # ws) =
     (if w = sep then [] # splitOn sep ws
      else (case splitOn sep ws of
              [] \<Rightarrow> [[w]]
            | seg # segs \<Rightarrow> (w # seg) # segs))"

record ShState =
  cwd :: string
  out :: "string list"
  status :: nat

definition runSimple :: "RemoteHost \<Rightarrow> ShState \<Rightarrow> string list \<Rightarrow> ShState" where
  "runSimple host st ws =
     (if ws = [] then st
      else if ws = [''true''] then st\<lparr>status := 0\<rparr>
      else if length ws = 2 \<and> ws ! 0 = ''cd'' then
        (case host (ws ! 1) of
           None \<Rightarrow> st\<lparr>out := out st @ [''sh: cd: '' @ ws ! 1 @ '': No such file or directory''],
                      status := 1\<rparr>
         | Some t \<Rightarrow> st\<lparr>cwd := ws ! 1, status := 0\<rparr>)
      else if ws = [''find'', ''.'', ''-type'', ''f'', ''-exec'', ''md5sum'', ''{}'', ''+''] then
        (case host (cwd st) of
           None \<Rightarrow> st\<lparr>out := out st @ [''find: .: No such file or directory''], status := 1\<rparr>
         | Some t \<Rightarrow> st\<lparr>out := out st @ findOutput t, status := findStatus t\<rparr>)
      else st\<lparr>out := out st @ [''sh: '' @ ws ! 0 @ '': command not found''], status := 127\<rparr>)"

fun runAndList :: "RemoteHost \<Rightarrow> ShState \<Rightarrow> string list list \<Rightarrow> ShState" where
  "runAndList host st [] = st"
| "runAndList host st (c # cs) =
     (let st' = runSimple host st c
      in if status st' = 0 then runAndList host st' cs else st')"

definition runShell :: "RemoteHost \<Rightarrow> string \<Rightarrow> ShState" where
  "runShell host cmdline =
     fold (\<lambda>l st. runAndList host st (splitOn ''&&'' l))
       (splitOn '';'' (shLex [] cmdline))
       \<lparr>cwd = ''~'', out = [], status = 0\<rparr>"

text \<open>
  \<open>bufio.Scanner\<close> with its default line splitting and buffer: it yields the lines with a
  trailing carriage return dropped, and gives up with an error at a line of
  \<open>MaxScanTokenSize\<close> (64 KiB) or more.
\<close>

definition dropCR :: "string \<Rightarrow> string" where
  "dropCR l = (if l \<noteq> [] \<and> last l = CHR 0x0D then butlast l else l)"

definition scanLines :: "string list \<Rightarrow> string list \<times> error option" where
  "scanLines ls =
     (map dropCR (takeWhile (\<lambda>l. length l < 65536) ls),
      if list_all (\<lambda>l. length l < 65536) ls then None
      else Some ''bufio.Scanner: token too long'')"

text \<open>
  \<open>ExecCommand\<close> as \<open>exec.Command\<close> on a machine whose \<open>ssh\<close> reaches the hosts of \<open>net\<close>:
  the remote exit status is that of \<open>ssh\<close> (255 if it cannot connect), and \<open>Run\<close> returns
  an error unless it is 0.
\<close>

definition cmdResult :: "nat \<Rightarrow> string list \<Rightarrow> CmdResult" where
  "cmdResult st ls =
     \<lparr>runErr = (if st = 0 then None else Some ''exit status non-zero''),
      scanned = fst (scanLines ls),
      scanErr = snd (scanLines ls)\<rparr>"

definition sshExec :: "(string \<Rightarrow> RemoteHost option) \<Rightarrow> string \<Rightarrow> string list \<Rightarrow> CmdResult" where
  "sshExec net name args =
     (if name = ''ssh'' \<and> length args = 2 then
        (case net (args ! 0) of
           None \<Rightarrow> cmdResult 255 [''ssh: connect to host '' @ args ! 0 @ '': Connection refused'']
         | Some host \<Rightarrow>
             (let st = runShell host (args ! 1) in cmdResult (status st) (out st)))
      else cmdResult 127 [])"

text \<open>
  The words of the specification about a remote listing, for the comparison with
  \<open>ListRemote\<close>: a per-file step fails when \<open>find\<close> cannot enumerate or \<open>md5sum\<close> cannot
  read a file.
\<close>

definition remoteStepFails :: "RemoteTree \<Rightarrow> bool" where
  "remoteStepFails t \<longleftrightarrow> findErrs t \<noteq> [] \<or> (\<exists>f \<in> set (files t). isl (rf_md5 f))"

text \<open>
  Where this model of the remote side is the remote side: the directory is an absolute
  path of plain characters, which the shell takes as one word; names are as \<open>find .\<close>
  prints them and free of the characters \<open>md5sum\<close> escapes (line feed, carriage return,
  backslash); a digest is 32 hexadecimal digits.
\<close>

definition plainPath :: "string \<Rightarrow> bool" where
  "plainPath b \<longleftrightarrow>
     take 1 b = ''/'' \<and>
     list_all (\<lambda>c. c \<in> set ''abcdefghijklmnopqrstuvwxyzABCDEFGHIJKLMNOPQRSTUVWXYZ0123456789/._-'') b"

definition isDigest :: "string \<Rightarrow> bool" where
  "isDigest h \<longleftrightarrow> length h = 32 \<and> list_all (\<lambda>c. c \<in> set ''0123456789abcdef'') h"

definition wfFile :: "RemoteFile \<Rightarrow> bool" where
  "wfFile f \<longleftrightarrow>
     take 2 (rf_name f) = ''./'' \<and>
     CHR 0x0A \<notin> set (rf_name f) \<and> CHR 0x0D \<notin> set (rf_name f) \<and> CHR 0x5C \<notin> set (rf_name f) \<and>
     (case rf_md5 f of Inl e \<Rightarrow> True | Inr h \<Rightarrow> isDigest h)"

definition wfTree :: "RemoteTree \<Rightarrow> bool" where
  "wfTree t \<longleftrightarrow> list_all wfFile (files t)"

text \<open>Example environments for the instances below.\<close>

definition exampleTree :: "bool \<Rightarrow> RemoteTree" where
  "exampleTree readable =
     \<lparr>files =
        [\<lparr>rf_name = ''./a.txt'', rf_md5 = Inr ''0cc175b9c0f1b6a831c399e269772661''\<rparr>,
         \<lparr>rf_name = ''./sub/b c.txt'',
          rf_md5 = (if readable then Inr ''92eb5ffee6ae2fec3ad71c777531578f''
                    else Inl ''Permission denied'')\<rparr>],
      findErrs = []\<rparr>"

definition exampleNet :: "bool \<Rightarrow> string \<Rightarrow> RemoteHost option" where
  "exampleNet readable h =
     (if h = ''host''
      then Some (\<lambda>d. if d = ''/data'' then Some (exampleTree readable) else None)
      else None)"

section \<open>The session state machine (model.go)\<close>

record DirectoryPair =
  Source :: string
  Destination :: string

text \<open>
  The messages \<open>Update\<close> tells apart. \<open>syncStartMsg\<close> carries \<open>Index\<close> and \<open>Path\<close>;
  \<open>syncDoneMsg\<close> carries \<open>Index\<close>, \<open>Path\<close>, \<open>Err\<close> (\<open>None\<close> is \<open>nil\<close>) and \<open>SrcHash\<close>;
  \<open>KeyMsg\<close> carries what \<open>msg.String()\<close> returns; \<open>otherMsg\<close> is any other message.
\<close>

datatype Msg =
    diffsMsg "Diff list list"
  | syncStartMsg int string
  | syncDoneMsg int string "error option" string
  | KeyMsg string
  | otherMsg

text \<open>The commands \<open>Update\<close> returns, unevaluated; \<open>None\<close> is the \<open>nil\<close> command.\<close>

datatype Cmd =
    Quit
  | computeDiffsCmd "DirectoryPair list"
  | syncStartCmd int string
  | syncFileCmd int string DirectoryPair
  | BatchMsg "Cmd list"

text \<open>
  \<open>tea.Batch\<close> of the Bubble Tea library: with no command to run it returns the \<open>nil\<close>
  command, otherwise the command that delivers the list as a \<open>BatchMsg\<close>. (Later
  releases hand back a single command unwrapped; \<open>Update\<close> passes two commands per record,
  never exactly one.)
\<close>

definition Batch :: "Cmd list \<Rightarrow> Cmd option" where
  "Batch cmds = (if cmds = [] then None else Some (BatchMsg cmds))"

text \<open>
  \<open>Index\<close> is a Go \<open>int\<close>. Its only arithmetic is \<open>m.Index++\<close> under the guard
  \<open>m.Index < len(m.Pairs)-1\<close>, which cannot overflow, so \<open>int\<close> models it exactly.
  \<open>Syncing\<close> is a \<open>map[string]struct{}\<close>, a set of paths.
\<close>

record Model =
  Pairs :: "DirectoryPair list"
  Index :: int
  Diffs :: "Diff list list"
  Loading :: bool
  Syncing :: "string set"

text \<open>
  \<open>getFileHashes\<close> (main.go) and \<open>computeAllDiffs\<close>: a pair whose source or destination
  cannot be listed gets the \<open>nil\<close> list. The file system and \<open>ExecCommand\<close> are the
  environment, as for the inventory producers.
\<close>

definition getFileHashes ::
    "(string \<Rightarrow> Visit list) \<Rightarrow> (string \<Rightarrow> string list \<Rightarrow> CmdResult) \<Rightarrow> string \<Rightarrow> error + FileHash list" where
  "getFileHashes fs ExecCommand src =
     (if CHR '':'' \<in> set src then ListRemote ExecCommand src else ListLocal fs src)"

definition computeAllDiffs ::
    "(string \<Rightarrow> Visit list) \<Rightarrow> (string \<Rightarrow> string list \<Rightarrow> CmdResult) \<Rightarrow> DirectoryPair list \<Rightarrow> Diff list list" where
  "computeAllDiffs fs ExecCommand pairs =
     map (\<lambda>p. case getFileHashes fs ExecCommand (Source p) of
                 Inl err1 \<Rightarrow> []
               | Inr src \<Rightarrow>
                   (case ListLocal fs (Destination p) of
                      Inl err2 \<Rightarrow> []
                    | Inr dst \<Rightarrow> ComputeDiff src dst)) pairs"

record Config =
  DirectoryPairs :: "DirectoryPair list"

text \<open>\<open>NewModel\<close>: the fields not set are the zero values, index 0 among them.\<close>

definition NewModel ::
    "(string \<Rightarrow> Visit list) \<Rightarrow> (string \<Rightarrow> string list \<Rightarrow> CmdResult) \<Rightarrow> Config \<Rightarrow> Model" where
  "NewModel fs ExecCommand cfg =
     \<lparr>Pairs = DirectoryPairs cfg, Index = 0,
      Diffs = computeAllDiffs fs ExecCommand (DirectoryPairs cfg),
      Loading = False, Syncing = {}\<rparr>"

datatype panic = IndexOutOfRange

text \<open>
  The loop of the \<open>syncDoneMsg\<close> case over \<open>m.Diffs[msg.Index]\<close>: the first record with
  the path is patched, then \<open>break\<close>.
\<close>

fun patchDiffs :: "Diff list \<Rightarrow> string \<Rightarrow> string \<Rightarrow> Diff list" where
  "patchDiffs [] path srcHash = []"
| "patchDiffs (d # ds) path srcHash =
     (if Path d = path then d\<lparr>DstHash := srcHash, Status := Match\<rparr> # ds
      else d # patchDiffs ds path srcHash)"

text \<open>The loop of the \<open>"s"\<close> case: two commands per record that needs repair, in order.\<close>

definition syncCmds :: "int \<Rightarrow> DirectoryPair \<Rightarrow> Diff list \<Rightarrow> Cmd list" where
  "syncCmds idx pair ds =
     concat (map (\<lambda>d. if Status d = MissingDestination \<or> Status d = Mismatch
                        then [syncStartCmd idx (Path d), syncFileCmd idx (Path d) pair]
                        else []) ds)"

definition inRange :: "int \<Rightarrow> 'a list \<Rightarrow> bool" where
  "inRange i xs \<longleftrightarrow> 0 \<le> i \<and> i < int (length xs)"

text \<open>
  \<open>Update\<close>: the model is passed by value and returned; an index out of range is the
  panic of the Go runtime.
\<close>

definition Update :: "Model \<Rightarrow> Msg \<Rightarrow> panic + (Model \<times> Cmd option)" where
  "Update m msg =
     (case msg of
        diffsMsg ds \<Rightarrow> Inr (m\<lparr>Diffs := ds, Loading := False\<rparr>, None)
      | syncStartMsg i path \<Rightarrow>
          Inr (if i = Index m then m\<lparr>Syncing := insert path (Syncing m)\<rparr> else m, None)
      | syncDoneMsg i path err srcHash \<Rightarrow>
          if i = Index m then
            let m1 = m\<lparr>Syncing := Syncing m - {path}\<rparr> in
            if err = None then
              if inRange i (Diffs m1)
              then Inr (m1\<lparr>Diffs := (Diffs m1)[nat i := patchDiffs (Diffs m1 ! nat i) path srcHash]\<rparr>,
                        None)
              else Inl IndexOutOfRange
            else Inr (m1, None)
          else Inr (m, None)
      | KeyMsg k \<Rightarrow>
          if k = ''q'' then Inr (m, Some Quit)
          else if k = ''tab'' then
            Inr (if Index m < int (length (Pairs m)) - 1
                 then m\<lparr>Index := Index m + 1\<rparr>
                 else m\<lparr>Index := 0\<rparr>, None)
          else if k = ''r'' then
            Inr (m\<lparr>Loading := True\<rparr>, Some (computeDiffsCmd (Pairs m)))
          else if k = ''s'' then
            let idx = Index m in
            if \<not> inRange idx (Pairs m) then Inl IndexOutOfRange
            else let pair = Pairs m ! nat idx in
              if \<not> inRange idx (Diffs m) then Inl IndexOutOfRange
              else Inr (m, Batch (syncCmds idx pair (Diffs m ! nat idx)))
          else Inr (m, None)
      | otherMsg \<Rightarrow> Inr (m, None))"

text \<open>The event loop feeding the same message \<open>n\<close> times.\<close>

fun repeatUpdate :: "nat \<Rightarrow> Msg \<Rightarrow> Model \<Rightarrow> panic + Model" where
  "repeatUpdate 0 msg m = Inr m"
| "repeatUpdate (Suc n) msg m =
     (case Update m msg of Inl e \<Rightarrow> Inl e | Inr (m', c) \<Rightarrow> repeatUpdate n msg m')"

section \<open>Properties of the diff engine\<close>

subsection \<open>The hash map of a list\<close>

lemma hashMap_Nil: "hashMap [] = Mapping.empty"
  by (simp add: hashMap_def)

lemma hashMap_snoc:
  "hashMap (l @ [fh]) = Mapping.update (fh_Path fh) (fh_Hash fh) (hashMap l)"
  by (simp add: hashMap_def)

lemma lastOccurrence_Nil: "lastOccurrence [] p = None"
  by (simp add: lastOccurrence_def)

lemma lastOccurrence_snoc:
  "lastOccurrence (l @ [fh]) p =
     (if fh_Path fh = p then Some (fh_Hash fh) else lastOccurrence l p)"
  by (simp add: lastOccurrence_def Let_def)

text \<open>The map built by the loop holds, for each path, the hash of its last occurrence.\<close>

lemma lookup_hashMap: "Mapping.lookup (hashMap l) p = lastOccurrence l p"
proof (induction l rule: rev_induct)
  case Nil
  show ?case by (simp add: hashMap_Nil lastOccurrence_Nil)
next
  case (snoc fh l)
  then show ?case
    by (simp add: hashMap_snoc lastOccurrence_snoc Mapping.lookup_update')
qed

lemma lastOccurrence_None: "lastOccurrence l p = None \<longleftrightarrow> p \<notin> fh_Path ` set l"
  by (induction l rule: rev_induct) (auto simp: lastOccurrence_Nil lastOccurrence_snoc)

lemma keys_hashMap: "Mapping.keys (hashMap l) = fh_Path ` set l"
  by (auto simp: keys_dom_lookup lookup_hashMap dom_def lastOccurrence_None)

lemma lastOccurrence_distinct:
  "distinct (map fh_Path l) \<Longrightarrow>
     lastOccurrence l p = Some h \<longleftrightarrow> \<lparr>fh_Path = p, fh_Hash = h\<rparr> \<in> set l"
proof (induction l rule: rev_induct)
  case Nil
  show ?case by (simp add: lastOccurrence_Nil)
next
  case (snoc fh l)
  then show ?case
    by (cases fh) (auto simp: lastOccurrence_snoc image_iff)
qed

lemma pathSet_hashMap:
  "pathSet (hashMap A) (hashMap B) = fh_Path ` set A \<union> fh_Path ` set B"
  by (simp add: pathSet_def keys_hashMap)

text \<open>With unique paths, the map depends on the entries of the list and not on their order.\<close>

lemma mset_hashMap:
  assumes "distinct (map fh_Path A)" and "mset A' = mset A"
  shows "hashMap A' = hashMap A"
proof (rule mapping_eqI)
  fix p
  have d': "distinct (map fh_Path A')"
    using assms by (metis mset_eq_imp_distinct_iff mset_map)
  have s: "set A' = set A"
    using assms(2) by (rule mset_eq_setD)
  have "lastOccurrence A' p = Some h \<longleftrightarrow> lastOccurrence A p = Some h" for h
    by (simp add: lastOccurrence_distinct [OF d'] lastOccurrence_distinct [OF assms(1)] s)
  then have "lastOccurrence A' p = lastOccurrence A p"
    by (metis option.exhaust)
  then show "Mapping.lookup (hashMap A') p = Mapping.lookup (hashMap A) p"
    by (simp add: lookup_hashMap)
qed

subsection \<open>The iteration order of the path set does not matter\<close>

lemma sort_rangeOrder:
  "finite S \<Longrightarrow> rangeOrder S ks \<Longrightarrow> sort ks = sorted_list_of_set S"
  unfolding rangeOrder_def
  by (metis distinct_remdups_id sorted_list_of_set_sort_remdups)

lemma ComputeDiffFrom_any_order:
  "rangeOrder (pathSet (hashMap A) (hashMap B)) ks \<Longrightarrow>
     ComputeDiffFrom ks A B = ComputeDiff A B"
proof -
  assume "rangeOrder (pathSet (hashMap A) (hashMap B)) ks"
  moreover have "finite (pathSet (hashMap A) (hashMap B))"
    by (simp add: pathSet_hashMap)
  ultimately have "sort ks = sorted_list_of_set (pathSet (hashMap A) (hashMap B))"
    by (simp add: sort_rangeOrder)
  then show ?thesis
    by (simp add: ComputeDiffFrom_def ComputeDiff_def Let_def)
qed

subsection \<open>The records of the result\<close>

lemma Path_diffOf: "Path (diffOf sm dm p) = p"
  by (simp add: diffOf_def Let_def split: prod.splits)

lemma paths_ComputeDiff:
  "map Path (ComputeDiff A B) = sorted_list_of_set (fh_Path ` set A \<union> fh_Path ` set B)"
  by (simp add: ComputeDiff_def Let_def pathSet_hashMap Path_diffOf o_def)

lemma ComputeDiff_member:
  "d \<in> set (ComputeDiff A B) \<longleftrightarrow>
     Path d \<in> fh_Path ` set A \<union> fh_Path ` set B \<and> d = diffOf (hashMap A) (hashMap B) (Path d)"
  by (auto simp: ComputeDiff_def Let_def pathSet_hashMap Path_diffOf)

lemma Status_diffOf:
  "Status (diffOf (hashMap A) (hashMap B) p) =
     (case lastOccurrence A p of
        None \<Rightarrow> MissingSource
      | Some a \<Rightarrow> (case lastOccurrence B p of
                    None \<Rightarrow> MissingDestination
                  | Some b \<Rightarrow> if a \<noteq> b then Mismatch else Match))"
  by (simp add: diffOf_def commaOk_def lookup_hashMap Let_def split: option.splits)

lemma SrcHash_diffOf:
  "SrcHash (diffOf (hashMap A) (hashMap B) p) =
     (case lastOccurrence A p of None \<Rightarrow> '''' | Some a \<Rightarrow> a)"
  by (simp add: diffOf_def commaOk_def lookup_hashMap Let_def split: option.splits prod.splits)

lemma DstHash_diffOf:
  "DstHash (diffOf (hashMap A) (hashMap B) p) =
     (case lastOccurrence B p of None \<Rightarrow> '''' | Some b \<Rightarrow> b)"
  by (simp add: diffOf_def commaOk_def lookup_hashMap Let_def split: option.splits prod.splits)

lemma filter_eq_distinct:
  "distinct xs \<Longrightarrow> p \<in> set xs \<Longrightarrow> filter (\<lambda>x. x = p) xs = [p]"
  by (induction xs) (auto simp: filter_empty_conv)

lemma filter_Path_ComputeDiff:
  assumes "p \<in> fh_Path ` set A \<union> fh_Path ` set B"
  shows "filter (\<lambda>d. Path d = p) (ComputeDiff A B) = [diffOf (hashMap A) (hashMap B) p]"
proof -
  let ?ps = "sorted_list_of_set (fh_Path ` set A \<union> fh_Path ` set B)"
  have "filter (\<lambda>d. Path d = p) (ComputeDiff A B) =
        map (diffOf (hashMap A) (hashMap B)) (filter (\<lambda>x. x = p) ?ps)"
    by (simp add: ComputeDiff_def Let_def pathSet_hashMap filter_map o_def Path_diffOf)
  also have "filter (\<lambda>x. x = p) ?ps = [p]"
    using assms by (intro filter_eq_distinct) auto
  finally show ?thesis by simp
qed

text \<open>
  Claim C1. For inventories \<open>A\<close> (source) and \<open>B\<close> (destination) in which each path occurs
  at most once, \<open>ComputeDiff A B\<close> has exactly one record per path of the union of the two
  path sets, in strictly ascending lexicographic order of path, and the status of a record
  is \<open>MissingSource\<close> iff its path is absent from \<open>A\<close>, \<open>MissingDestination\<close> iff it is
  absent from \<open>B\<close>, \<open>Mismatch\<close> iff it is in both with unequal hashes, and \<open>Match\<close> iff it
  is in both with equal hashes.
\<close>

theorem ComputeDiff_correct:
  assumes "distinct (map fh_Path A)" and "distinct (map fh_Path B)"
  shows "sorted_wrt (<) (map Path (ComputeDiff A B)) \<and>
         set (map Path (ComputeDiff A B)) = fh_Path ` set A \<union> fh_Path ` set B \<and>
         (\<forall>d \<in> set (ComputeDiff A B).
            (Status d = MissingSource \<longleftrightarrow> Path d \<notin> fh_Path ` set A) \<and>
            (Status d = MissingDestination \<longleftrightarrow> Path d \<notin> fh_Path ` set B) \<and>
            (Status d = Mismatch \<longleftrightarrow>
               (\<exists>a b. \<lparr>fh_Path = Path d, fh_Hash = a\<rparr> \<in> set A \<and>
                      \<lparr>fh_Path = Path d, fh_Hash = b\<rparr> \<in> set B \<and> a \<noteq> b)) \<and>
            (Status d = Match \<longleftrightarrow>
               (\<exists>h. \<lparr>fh_Path = Path d, fh_Hash = h\<rparr> \<in> set A \<and>
                    \<lparr>fh_Path = Path d, fh_Hash = h\<rparr> \<in> set B)))"
proof (intro conjI ballI)
  show "sorted_wrt (<) (map Path (ComputeDiff A B))"
    by (simp add: paths_ComputeDiff)
  show "set (map Path (ComputeDiff A B)) = fh_Path ` set A \<union> fh_Path ` set B"
    by (simp add: paths_ComputeDiff)
next
  fix d assume d: "d \<in> set (ComputeDiff A B)"
  let ?p = "Path d"
  from d have un: "?p \<in> fh_Path ` set A \<union> fh_Path ` set B"
    and st: "Status d = Status (diffOf (hashMap A) (hashMap B) ?p)"
    by (simp_all add: ComputeDiff_member)
  note inA = lastOccurrence_distinct [OF assms(1), of ?p]
  note inB = lastOccurrence_distinct [OF assms(2), of ?p]
  note nA = lastOccurrence_None [of A ?p]
  note nB = lastOccurrence_None [of B ?p]
  show "Status d = MissingSource \<longleftrightarrow> ?p \<notin> fh_Path ` set A"
    using nA by (auto simp: st Status_diffOf split: option.splits)
  show "Status d = MissingDestination \<longleftrightarrow> ?p \<notin> fh_Path ` set B"
    using nA nB un by (auto simp: st Status_diffOf split: option.splits)
  show "Status d = Mismatch \<longleftrightarrow>
       (\<exists>a b. \<lparr>fh_Path = ?p, fh_Hash = a\<rparr> \<in> set A \<and>
              \<lparr>fh_Path = ?p, fh_Hash = b\<rparr> \<in> set B \<and> a \<noteq> b)"
    by (auto simp: st Status_diffOf simp flip: inA inB split: option.splits)
  show "Status d = Match \<longleftrightarrow>
       (\<exists>h. \<lparr>fh_Path = ?p, fh_Hash = h\<rparr> \<in> set A \<and>
            \<lparr>fh_Path = ?p, fh_Hash = h\<rparr> \<in> set B)"
    by (auto simp: st Status_diffOf simp flip: inA inB split: option.splits)
qed

theorem ComputeDiff_correct_witness:
  "distinct (map fh_Path [\<lparr>fh_Path = ''foo.txt'', fh_Hash = ''h1''\<rparr>, \<lparr>fh_Path = ''bar.txt'', fh_Hash = ''h2''\<rparr>]) \<and>
   distinct (map fh_Path [\<lparr>fh_Path = ''foo.txt'', fh_Hash = ''h1''\<rparr>, \<lparr>fh_Path = ''new.txt'', fh_Hash = ''h3''\<rparr>]) \<and>
   sorted_wrt (<) (map Path (ComputeDiff
      [\<lparr>fh_Path = ''foo.txt'', fh_Hash = ''h1''\<rparr>, \<lparr>fh_Path = ''bar.txt'', fh_Hash = ''h2''\<rparr>]
      [\<lparr>fh_Path = ''foo.txt'', fh_Hash = ''h1''\<rparr>, \<lparr>fh_Path = ''new.txt'', fh_Hash = ''h3''\<rparr>])) \<and>
   set (map Path (ComputeDiff
      [\<lparr>fh_Path = ''foo.txt'', fh_Hash = ''h1''\<rparr>, \<lparr>fh_Path = ''bar.txt'', fh_Hash = ''h2''\<rparr>]
      [\<lparr>fh_Path = ''foo.txt'', fh_Hash = ''h1''\<rparr>, \<lparr>fh_Path = ''new.txt'', fh_Hash = ''h3''\<rparr>]))
     = {''foo.txt'', ''bar.txt'', ''new.txt''}"
proof -
  have a: "distinct (map fh_Path [\<lparr>fh_Path = ''foo.txt'', fh_Hash = ''h1''\<rparr>, \<lparr>fh_Path = ''bar.txt'', fh_Hash = ''h2''\<rparr>])"
    by simp
  have b: "distinct (map fh_Path [\<lparr>fh_Path = ''foo.txt'', fh_Hash = ''h1''\<rparr>, \<lparr>fh_Path = ''new.txt'', fh_Hash = ''h3''\<rparr>])"
    by simp
  from ComputeDiff_correct [OF a b] a b show ?thesis
    by auto
qed

text \<open>
  Claim C7. \<open>ComputeDiff\<close> does not depend on the order of its inputs, nor on the order
  in which Go iterates over the path set: for inventories \<open>A\<close>, \<open>B\<close> with unique paths,
  permutations \<open>A'\<close> of \<open>A\<close> and \<open>B'\<close> of \<open>B\<close>, and any enumeration \<open>ks\<close> of the path
  set, the result is the list \<open>ComputeDiff A B\<close>; so every run on the same inputs
  returns the same list.
\<close>

theorem ComputeDiff_order_independent:
  assumes "distinct (map fh_Path A)" and "distinct (map fh_Path B)"
    and "mset A' = mset A" and "mset B' = mset B"
    and "rangeOrder (pathSet (hashMap A') (hashMap B')) ks"
  shows "ComputeDiff A' B' = ComputeDiff A B \<and> ComputeDiffFrom ks A' B' = ComputeDiff A B"
proof -
  have "hashMap A' = hashMap A"
    using assms(1,3) by (rule mset_hashMap)
  moreover have "hashMap B' = hashMap B"
    using assms(2,4) by (rule mset_hashMap)
  ultimately have "ComputeDiff A' B' = ComputeDiff A B"
    by (simp add: ComputeDiff_def)
  moreover have "ComputeDiffFrom ks A' B' = ComputeDiff A' B'"
    using assms(5) by (rule ComputeDiffFrom_any_order)
  ultimately show ?thesis by simp
qed

theorem ComputeDiff_order_independent_witness:
  "distinct (map fh_Path [\<lparr>fh_Path = ''a'', fh_Hash = ''x''\<rparr>, \<lparr>fh_Path = ''c'', fh_Hash = ''u''\<rparr>]) \<and>
   distinct (map fh_Path [\<lparr>fh_Path = ''a'', fh_Hash = ''y''\<rparr>, \<lparr>fh_Path = ''b'', fh_Hash = ''z''\<rparr>]) \<and>
   mset [\<lparr>fh_Path = ''c'', fh_Hash = ''u''\<rparr>, \<lparr>fh_Path = ''a'', fh_Hash = ''x''\<rparr>]
     = mset [\<lparr>fh_Path = ''a'', fh_Hash = ''x''\<rparr>, \<lparr>fh_Path = ''c'', fh_Hash = ''u''\<rparr>] \<and>
   mset [\<lparr>fh_Path = ''b'', fh_Hash = ''z''\<rparr>, \<lparr>fh_Path = ''a'', fh_Hash = ''y''\<rparr>]
     = mset [\<lparr>fh_Path = ''a'', fh_Hash = ''y''\<rparr>, \<lparr>fh_Path = ''b'', fh_Hash = ''z''\<rparr>] \<and>
   rangeOrder (pathSet (hashMap [\<lparr>fh_Path = ''c'', fh_Hash = ''u''\<rparr>, \<lparr>fh_Path = ''a'', fh_Hash = ''x''\<rparr>])
                       (hashMap [\<lparr>fh_Path = ''b'', fh_Hash = ''z''\<rparr>, \<lparr>fh_Path = ''a'', fh_Hash = ''y''\<rparr>]))
              [''b'', ''c'', ''a''] \<and>
   ComputeDiff [\<lparr>fh_Path = ''c'', fh_Hash = ''u''\<rparr>, \<lparr>fh_Path = ''a'', fh_Hash = ''x''\<rparr>]
               [\<lparr>fh_Path = ''b'', fh_Hash = ''z''\<rparr>, \<lparr>fh_Path = ''a'', fh_Hash = ''y''\<rparr>]
     = ComputeDiff [\<lparr>fh_Path = ''a'', fh_Hash = ''x''\<rparr>, \<lparr>fh_Path = ''c'', fh_Hash = ''u''\<rparr>]
                   [\<lparr>fh_Path = ''a'', fh_Hash = ''y''\<rparr>, \<lparr>fh_Path = ''b'', fh_Hash = ''z''\<rparr>] \<and>
   ComputeDiffFrom [''b'', ''c'', ''a'']
               [\<lparr>fh_Path = ''c'', fh_Hash = ''u''\<rparr>, \<lparr>fh_Path = ''a'', fh_Hash = ''x''\<rparr>]
               [\<lparr>fh_Path = ''b'', fh_Hash = ''z''\<rparr>, \<lparr>fh_Path = ''a'', fh_Hash = ''y''\<rparr>]
     = ComputeDiff [\<lparr>fh_Path = ''a'', fh_Hash = ''x''\<rparr>, \<lparr>fh_Path = ''c'', fh_Hash = ''u''\<rparr>]
                   [\<lparr>fh_Path = ''a'', fh_Hash = ''y''\<rparr>, \<lparr>fh_Path = ''b'', fh_Hash = ''z''\<rparr>]"
proof -
  let ?A = "[\<lparr>fh_Path = ''a'', fh_Hash = ''x''\<rparr>, \<lparr>fh_Path = ''c'', fh_Hash = ''u''\<rparr>]"
  let ?B = "[\<lparr>fh_Path = ''a'', fh_Hash = ''y''\<rparr>, \<lparr>fh_Path = ''b'', fh_Hash = ''z''\<rparr>]"
  let ?A' = "[\<lparr>fh_Path = ''c'', fh_Hash = ''u''\<rparr>, \<lparr>fh_Path = ''a'', fh_Hash = ''x''\<rparr>]"
  let ?B' = "[\<lparr>fh_Path = ''b'', fh_Hash = ''z''\<rparr>, \<lparr>fh_Path = ''a'', fh_Hash = ''y''\<rparr>]"
  have a: "distinct (map fh_Path ?A)" by simp
  have b: "distinct (map fh_Path ?B)" by simp
  have a': "mset ?A' = mset ?A" by simp
  have b': "mset ?B' = mset ?B" by simp
  have r: "rangeOrder (pathSet (hashMap ?A') (hashMap ?B')) [''b'', ''c'', ''a'']"
    by (auto simp: rangeOrder_def pathSet_hashMap)
  from ComputeDiff_order_independent [OF a b a' b' r] a b a' b' r show ?thesis
    by blast
qed

text \<open>
  Claim C10. Without the uniqueness assumption: a path that occurs in either list, however
  often, has exactly one record in \<open>ComputeDiff A B\<close>, and the hashes and the status of
  that record are those of the last occurrence of the path in each list.
\<close>

theorem ComputeDiff_duplicates:
  assumes "p \<in> fh_Path ` set A \<union> fh_Path ` set B"
  shows "\<exists>d. filter (\<lambda>d. Path d = p) (ComputeDiff A B) = [d] \<and>
             SrcHash d = (case lastOccurrence A p of None \<Rightarrow> '''' | Some a \<Rightarrow> a) \<and>
             DstHash d = (case lastOccurrence B p of None \<Rightarrow> '''' | Some b \<Rightarrow> b) \<and>
             Status d =
               (case lastOccurrence A p of
                  None \<Rightarrow> MissingSource
                | Some a \<Rightarrow> (case lastOccurrence B p of
                              None \<Rightarrow> MissingDestination
                            | Some b \<Rightarrow> if a \<noteq> b then Mismatch else Match))"
  using filter_Path_ComputeDiff [OF assms]
  by (simp add: Status_diffOf SrcHash_diffOf DstHash_diffOf)

theorem ComputeDiff_duplicates_witness:
  "''a'' \<in> fh_Path ` set [\<lparr>fh_Path = ''a'', fh_Hash = ''old''\<rparr>, \<lparr>fh_Path = ''a'', fh_Hash = ''new''\<rparr>]
             \<union> fh_Path ` set [\<lparr>fh_Path = ''a'', fh_Hash = ''new''\<rparr>] \<and>
   (\<exists>d. filter (\<lambda>d. Path d = ''a'')
          (ComputeDiff [\<lparr>fh_Path = ''a'', fh_Hash = ''old''\<rparr>, \<lparr>fh_Path = ''a'', fh_Hash = ''new''\<rparr>]
                       [\<lparr>fh_Path = ''a'', fh_Hash = ''new''\<rparr>]) = [d] \<and>
        SrcHash d = ''new'' \<and> DstHash d = ''new'' \<and> Status d = Match)"
proof -
  let ?A = "[\<lparr>fh_Path = ''a'', fh_Hash = ''old''\<rparr>, \<lparr>fh_Path = ''a'', fh_Hash = ''new''\<rparr>]"
  let ?B = "[\<lparr>fh_Path = ''a'', fh_Hash = ''new''\<rparr>]"
  have m: "''a'' \<in> fh_Path ` set ?A \<union> fh_Path ` set ?B" by simp
  have la: "lastOccurrence ?A ''a'' = Some ''new''" by (simp add: lastOccurrence_def)
  have lb: "lastOccurrence ?B ''a'' = Some ''new''" by (simp add: lastOccurrence_def)
  from ComputeDiff_duplicates [OF m] la lb m show ?thesis
    by simp
qed

section \<open>Properties of the inventory producers\<close>

lemma walkFn_fail: "stepFails v \<Longrightarrow> isl (walkFn acc v)"
  by (auto simp: stepFails_def walkFn_def split: option.splits sum.splits)

lemma walkFn_ok:
  "\<not> stepFails v \<Longrightarrow> walkFn acc v = Inr (if isDir v then acc else acc @ [fileEntry v])"
  by (auto simp: stepFails_def walkFn_def fileEntry_def split: option.splits sum.splits)

lemma WalkDir_fail: "\<exists>v \<in> set vs. stepFails v \<Longrightarrow> isl (WalkDir vs acc)"
proof (induction vs arbitrary: acc)
  case Nil
  then show ?case by simp
next
  case (Cons v vs)
  show ?case
  proof (cases "stepFails v")
    case True
    from walkFn_fail [OF this, of acc] show ?thesis
      by (auto simp: isl_def)
  next
    case False
    with Cons.prems have "\<exists>v \<in> set vs. stepFails v" by simp
    from Cons.IH [OF this] walkFn_ok [OF False, of acc] show ?thesis
      by simp
  qed
qed

lemma WalkDir_ok:
  "\<forall>v \<in> set vs. \<not> stepFails v \<Longrightarrow>
     WalkDir vs acc = Inr (acc @ map fileEntry (filter (\<lambda>v. \<not> isDir v) vs))"
  by (induction vs arbitrary: acc) (simp_all add: walkFn_ok)

lemma ListLocal_WalkDir: "ListLocal fs dir = WalkDir (fs (TrimRight dir ''/'')) []"
  by (simp add: ListLocal_def split: sum.splits)

lemma ListRemote_ok:
  assumes "SplitN2 addr = [host, base]"
    and "runErr (ExecCommand ''ssh'' [host, remoteCommand (TrimRight base ''/'')]) = None"
    and "scanErr (ExecCommand ''ssh'' [host, remoteCommand (TrimRight base ''/'')]) = None"
  shows "ListRemote ExecCommand addr =
           Inr (fold (\<lambda>line rs. parseLine rs line)
                  (scanned (ExecCommand ''ssh'' [host, remoteCommand (TrimRight base ''/'')])) [])"
  using assms by (simp add: ListRemote_def Let_def)

lemma ListRemote_fail:
  assumes "SplitN2 addr = [host, base]"
    and "runErr (ExecCommand ''ssh'' [host, remoteCommand (TrimRight base ''/'')]) \<noteq> None \<or>
         scanErr (ExecCommand ''ssh'' [host, remoteCommand (TrimRight base ''/'')]) \<noteq> None"
  shows "isl (ListRemote ExecCommand addr)"
  using assms by (auto simp: ListRemote_def Let_def split: option.splits)

lemma SplitN2_cases: "SplitN2 addr = [addr] \<or> (\<exists>host base. SplitN2 addr = [host, base])"
  by (simp add: SplitN2_def split: list.splits)

lemma ListRemote_malformed: "length (SplitN2 addr) \<noteq> 2 \<Longrightarrow> isl (ListRemote ExecCommand addr)"
  by (simp add: ListRemote_def Let_def)

subsection \<open>The remote command line\<close>

lemma shLex_plain:
  "list_all (\<lambda>c. c \<noteq> CHR '' '' \<and> c \<noteq> CHR '';'') b \<Longrightarrow> shLex cur (b @ s) = shLex (cur @ b) s"
  by (induction b arbitrary: cur) auto

lemma plainPath_word:
  assumes "plainPath b"
  shows "b \<noteq> []" and "list_all (\<lambda>c. c \<noteq> CHR '' '' \<and> c \<noteq> CHR '';'') b"
    and "b \<noteq> ''&&''" and "b \<noteq> '';''"
proof -
  from assms obtain b' where b: "b = CHR ''/'' # b'"
    by (cases b) (auto simp: plainPath_def)
  then show "b \<noteq> []" "b \<noteq> ''&&''" "b \<noteq> '';''" by simp_all
  from assms have "list_all (\<lambda>c. c \<in> set ''abcdefghijklmnopqrstuvwxyzABCDEFGHIJKLMNOPQRSTUVWXYZ0123456789/._-'') b"
    by (simp add: plainPath_def)
  then show "list_all (\<lambda>c. c \<noteq> CHR '' '' \<and> c \<noteq> CHR '';'') b"
    by (rule list.pred_mono_strong) auto
qed

lemma shLex_remoteCommand:
  assumes "plainPath b"
  shows "shLex [] (remoteCommand b) =
           [''cd'', b, ''&&'', ''find'', ''.'', ''-type'', ''f'', ''-exec'', ''md5sum'', ''{}'', ''+'']"
proof -
  have "shLex [] (remoteCommand b) =
          ''cd'' # shLex [] (b @ '' && find . -type f -exec md5sum {} +'')"
    by (simp add: remoteCommand_def)
  also have "shLex [] (b @ '' && find . -type f -exec md5sum {} +'') =
          shLex b '' && find . -type f -exec md5sum {} +''"
    using shLex_plain [OF plainPath_word(2) [OF assms], of "[]"] by simp
  also have "\<dots> = [b, ''&&'', ''find'', ''.'', ''-type'', ''f'', ''-exec'', ''md5sum'', ''{}'', ''+'']"
    using plainPath_word(1) [OF assms] by simp
  finally show ?thesis .
qed

lemma runShell_remoteCommand:
  assumes "plainPath b"
  shows "runShell host (remoteCommand b) =
           (case host b of
              None \<Rightarrow> \<lparr>cwd = ''~'', out = [''sh: cd: '' @ b @ '': No such file or directory''], status = 1\<rparr>
            | Some t \<Rightarrow> \<lparr>cwd = b, out = findOutput t, status = findStatus t\<rparr>)"
  using plainPath_word(3,4) [OF assms]
  by (simp add: runShell_def shLex_remoteCommand [OF assms] runSimple_def Let_def
      split: option.splits)


subsection \<open>Parsing a line of \<open>md5sum\<close>\<close>

lemma spaceLen_ascii:
  assumes "(of_char c :: nat) < 128" and "(of_char c :: nat) \<noteq> 32"
    and "\<not> (9 \<le> (of_char c :: nat) \<and> (of_char c :: nat) \<le> 13)"
  shows "spaceLen (c # s) = 0"
  using assms by (simp add: spaceLen_def split: list.splits)

lemma hex_ascii:
  assumes "c \<in> set ''0123456789abcdef''"
  shows "(of_char c :: nat) < 128 \<and> (of_char c :: nat) \<noteq> 32 \<and>
         \<not> (9 \<le> (of_char c :: nat) \<and> (of_char c :: nat) \<le> 13)"
  using assms by auto

lemma spaceLen_hex: "c \<in> set ''0123456789abcdef'' \<Longrightarrow> spaceLen (c # s) = 0"
  using hex_ascii [of c] by (simp add: spaceLen_ascii del: set_simps)


lemma spaceLen_blank: "spaceLen (CHR '' '' # s) = 1"
  by (simp add: spaceLen_def)

lemma spaceLen_dot: "spaceLen (CHR ''.'' # s) = 0"
  by (simp add: spaceLen_def split: list.splits)

lemma FieldsFrom_hex:
  "list_all (\<lambda>c. c \<in> set ''0123456789abcdef'') h \<Longrightarrow>
     FieldsFrom (Some f) (h @ CHR '' '' # s) = (f @ h) # FieldsFrom None s"
proof (induction h arbitrary: f)
  case Nil
  show ?case by (simp add: spaceLen_blank)
next
  case (Cons c h)
  then have "spaceLen (c # h @ CHR '' '' # s) = 0"
    by (simp add: spaceLen_hex del: set_simps)
  with Cons show ?case by simp
qed

lemma FieldsFrom_Some_nonempty: "FieldsFrom (Some f) s \<noteq> []"
  by (induction s arbitrary: f) simp_all

lemma Fields_md5Line:
  assumes "isDigest h" and "take 2 n = ''./''"
  shows "\<exists>w ws. Fields (h @ ''  '' @ n) = h # w # ws"
proof -
  from assms(1) obtain c h' where h: "h = c # h'"
    by (cases h) (auto simp: isDigest_def)
  from assms(1) have hex: "list_all (\<lambda>c. c \<in> set ''0123456789abcdef'') h"
    by (simp add: isDigest_def)
  from assms(2) obtain n' where n: "n = CHR ''.'' # n'"
    by (cases n) auto
  from hex h have c: "spaceLen (c # h' @ ''  '' @ n) = 0"
    by (simp add: spaceLen_hex del: set_simps)
  from hex h have hex': "list_all (\<lambda>c. c \<in> set ''0123456789abcdef'') h'"
    by simp
  have "Fields (h @ ''  '' @ n) = FieldsFrom (Some [c]) (h' @ CHR '' '' # CHR '' '' # n)"
    using c by (simp add: Fields_def h)
  also have "\<dots> = h # FieldsFrom None (CHR '' '' # n)"
    using FieldsFrom_hex [OF hex', of "[c]" "CHR '' '' # n"] by (simp add: h)
  also have "FieldsFrom None (CHR '' '' # n) = FieldsFrom (Some ''.'') n'"
    by (simp add: spaceLen_blank spaceLen_dot n)
  finally have "Fields (h @ ''  '' @ n) = h # FieldsFrom (Some ''.'') n'" .
  moreover obtain w ws where "FieldsFrom (Some ''.'') n' = w # ws"
    using FieldsFrom_Some_nonempty [of "''.''" n'] by (cases "FieldsFrom (Some ''.'') n'") auto
  ultimately show ?thesis by simp
qed

lemma dropCR_md5Line:
  assumes "wfFile f" and "rf_md5 f = Inr h"
  shows "dropCR (md5Line f) = md5Line f"
proof -
  from assms(1) have ne: "rf_name f \<noteq> []" and cr: "CHR 0x0D \<notin> set (rf_name f)"
    by (auto simp: wfFile_def)
  then have "last (rf_name f) \<noteq> CHR 0x0D"
    using last_in_set by metis
  with ne assms(2) show ?thesis
    by (simp add: dropCR_def md5Line_def)
qed

lemma parseLine_md5Line:
  assumes "wfFile f" and "rf_md5 f = Inr h"
  shows "\<exists>p. parseLine acc (md5Line f) = acc @ [\<lparr>fh_Path = p, fh_Hash = h\<rparr>]"
proof -
  from assms have "isDigest h" and "take 2 (rf_name f) = ''./''"
    by (simp_all add: wfFile_def)
  from Fields_md5Line [OF this] obtain w ws where
    "Fields (h @ ''  '' @ rf_name f) = h # w # ws" by blast
  with assms(2) show ?thesis
    by (simp add: parseLine_def md5Line_def Let_def)
qed

lemma fold_parseLine_md5:
  assumes "list_all wfFile fs" and "list_all (\<lambda>f. \<not> isl (rf_md5 f)) fs"
  shows "map fh_Hash (fold (\<lambda>line rs. parseLine rs line) (map (\<lambda>f. dropCR (md5Line f)) fs) acc) =
           map fh_Hash acc @ map (\<lambda>f. projr (rf_md5 f)) fs"
  using assms
proof (induction fs arbitrary: acc)
  case Nil
  show ?case by simp
next
  case (Cons f fs)
  from Cons.prems obtain h where h: "rf_md5 f = Inr h"
    by (cases "rf_md5 f") auto
  from Cons.prems have wf: "wfFile f" by simp
  from parseLine_md5Line [OF wf h, of acc] obtain p where
    p: "parseLine acc (md5Line f) = acc @ [\<lparr>fh_Path = p, fh_Hash = h\<rparr>]" by blast
  from Cons.prems have "list_all wfFile fs" "list_all (\<lambda>f. \<not> isl (rf_md5 f)) fs"
    by simp_all
  from Cons.IH [OF this, of "acc @ [\<lparr>fh_Path = p, fh_Hash = h\<rparr>]"] show ?case
    by (simp add: dropCR_md5Line [OF wf h] p h)
qed

subsection \<open>A remote listing\<close>

lemma scanLines_short:
  "list_all (\<lambda>l. length l < 65536) ls \<Longrightarrow> scanLines ls = (map dropCR ls, None)"
proof -
  assume a: "list_all (\<lambda>l. length l < 65536) ls"
  then have tw: "takeWhile (\<lambda>l. length l < 65536) ls = ls"
    by (simp add: takeWhile_eq_all_conv list_all_iff)
  show ?thesis
    unfolding scanLines_def tw using a by simp
qed

lemma scanLines_long:
  "\<not> list_all (\<lambda>l. length l < 65536) ls \<Longrightarrow> snd (scanLines ls) \<noteq> None"
  by (simp add: scanLines_def)

lemma ListRemote_ssh:
  assumes "SplitN2 addr = [host, base]" and "plainPath (TrimRight base ''/'')"
    and "net host = Some H" and "H (TrimRight base ''/'') = Some t"
  shows "ListRemote (sshExec net) addr =
           (if findStatus t \<noteq> 0 then Inl ''ssh error: exit status non-zero''
            else if \<not> list_all (\<lambda>l. length l < 65536) (findOutput t)
            then Inl ''bufio.Scanner: token too long''
            else Inr (fold (\<lambda>line rs. parseLine rs line) (map dropCR (findOutput t)) []))"
proof -
  have "sshExec net ''ssh'' [host, remoteCommand (TrimRight base ''/'')] =
          cmdResult (findStatus t) (findOutput t)"
    by (simp add: sshExec_def assms(3,4) runShell_remoteCommand [OF assms(2)])
  then have res: "sshExec net ''ssh'' [host, remoteCommand (TrimRight base ''/'')] =
      \<lparr>runErr = (if findStatus t = 0 then None else Some ''exit status non-zero''),
       scanned = fst (scanLines (findOutput t)),
       scanErr = snd (scanLines (findOutput t))\<rparr>"
    by (simp add: cmdResult_def)
  show ?thesis
  proof (cases "list_all (\<lambda>l. length l < 65536) (findOutput t)")
    case True
    from scanLines_short [OF this] True show ?thesis
      by (simp add: ListRemote_def assms(1) res)
  next
    case False
    then have "snd (scanLines (findOutput t)) = Some ''bufio.Scanner: token too long''"
      by (simp add: scanLines_def)
    with False show ?thesis
      by (simp add: ListRemote_def assms(1) res)
  qed
qed

lemma findStatus_fails:
  "findStatus t = 0 \<longleftrightarrow> \<not> remoteStepFails t"
  "0 < findStatus t \<longleftrightarrow> remoteStepFails t"
  by (auto simp: findStatus_def remoteStepFails_def list_all_iff)

lemma findOutput_ok: "\<not> remoteStepFails t \<Longrightarrow> findOutput t = map md5Line (files t)"
  by (simp add: findOutput_def remoteStepFails_def)

lemma md5Line_short:
  assumes "wfFile f" and "rf_md5 f = Inr h" and "length (rf_name f) < 65000"
  shows "length (md5Line f) < 65536"
  using assms by (simp add: md5Line_def wfFile_def isDigest_def)

text \<open>
  Claim C8. An inventory listing returns an error and no list as soon as one per-file step
  fails, and a list it does return omits nothing. For \<open>ListLocal\<close>: if any visit of the
  walk has a failing step the result is an error, and a returned list has the entry of
  every visited regular file, in order. For \<open>ListRemote\<close>: whatever \<open>ExecCommand\<close> is, an
  error of the command or of the scanner gives an error; and run through \<open>ssh\<close> against a
  host whose directory holds the tree \<open>t\<close>, if \<open>find\<close> cannot enumerate or \<open>md5sum\<close> cannot
  read one file the result is an error, a returned list has the digest of every file of
  the tree, in order, and with no failing step (and lines the scanner can hold) a list is
  returned.
\<close>

theorem listing_aborts_on_failure:
  "((\<exists>v \<in> set (fs (TrimRight dir ''/'')). stepFails v) \<longrightarrow> isl (ListLocal fs dir)) \<and>
   (ListLocal fs dir = Inr rs \<longrightarrow>
      (\<forall>v \<in> set (fs (TrimRight dir ''/'')). \<not> stepFails v) \<and>
      rs = map fileEntry (filter (\<lambda>v. \<not> isDir v) (fs (TrimRight dir ''/'')))) \<and>
   (SplitN2 addr = [host, base] \<and>
      (runErr (ExecCommand ''ssh'' [host, remoteCommand (TrimRight base ''/'')]) \<noteq> None \<or>
       scanErr (ExecCommand ''ssh'' [host, remoteCommand (TrimRight base ''/'')]) \<noteq> None)
      \<longrightarrow> isl (ListRemote ExecCommand addr)) \<and>
   (SplitN2 addr = [host, base] \<and> plainPath (TrimRight base ''/'') \<and>
    net host = Some H \<and> H (TrimRight base ''/'') = Some t \<and> wfTree t \<longrightarrow>
      (remoteStepFails t \<longrightarrow> isl (ListRemote (sshExec net) addr)) \<and>
      (ListRemote (sshExec net) addr = Inr rs' \<longrightarrow>
         \<not> remoteStepFails t \<and>
         map fh_Hash rs' = map (\<lambda>f. projr (rf_md5 f)) (files t)) \<and>
      (\<not> remoteStepFails t \<and> list_all (\<lambda>f. length (rf_name f) < 65000) (files t) \<longrightarrow>
         (\<exists>rs. ListRemote (sshExec net) addr = Inr rs)))"
proof (intro conjI impI)
  assume "\<exists>v \<in> set (fs (TrimRight dir ''/'')). stepFails v"
  then show "isl (ListLocal fs dir)"
    by (simp add: ListLocal_WalkDir WalkDir_fail)
next
  assume ok: "ListLocal fs dir = Inr rs"
  show "\<forall>v \<in> set (fs (TrimRight dir ''/'')). \<not> stepFails v"
  proof (rule ccontr)
    assume "\<not> ?thesis"
    then have "isl (WalkDir (fs (TrimRight dir ''/'')) [])"
      by (intro WalkDir_fail) simp
    with ok show False by (simp add: ListLocal_WalkDir)
  qed
  from WalkDir_ok [OF this, of "[]"] ok
  show "rs = map fileEntry (filter (\<lambda>v. \<not> isDir v) (fs (TrimRight dir ''/'')))"
    by (simp add: ListLocal_WalkDir)
next
  assume "SplitN2 addr = [host, base] \<and>
      (runErr (ExecCommand ''ssh'' [host, remoteCommand (TrimRight base ''/'')]) \<noteq> None \<or>
       scanErr (ExecCommand ''ssh'' [host, remoteCommand (TrimRight base ''/'')]) \<noteq> None)"
  then show "isl (ListRemote ExecCommand addr)"
    using ListRemote_fail [of addr host base ExecCommand] by blast
next
  assume env: "SplitN2 addr = [host, base] \<and> plainPath (TrimRight base ''/'') \<and>
    net host = Some H \<and> H (TrimRight base ''/'') = Some t \<and> wfTree t"
  then have e: "SplitN2 addr = [host, base]" "plainPath (TrimRight base ''/'')"
    "net host = Some H" "H (TrimRight base ''/'') = Some t"
    by simp_all
  have run: "ListRemote (sshExec net) addr =
           (if findStatus t \<noteq> 0 then Inl ''ssh error: exit status non-zero''
            else if \<not> list_all (\<lambda>l. length l < 65536) (findOutput t)
            then Inl ''bufio.Scanner: token too long''
            else Inr (fold (\<lambda>line rs. parseLine rs line) (map dropCR (findOutput t)) []))"
    by (rule ListRemote_ssh [where net = net and H = H, OF e])
  from env have wf: "list_all wfFile (files t)"
    by (simp add: wfTree_def)
  {
    assume "remoteStepFails t"
    then show "isl (ListRemote (sshExec net) addr)"
      by (simp add: run findStatus_fails)
  next
    assume ok: "ListRemote (sshExec net) addr = Inr rs'"
    show nofail: "\<not> remoteStepFails t"
    proof
      assume "remoteStepFails t"
      with ok show False by (simp add: run findStatus_fails)
    qed
    then have allok: "list_all (\<lambda>f. \<not> isl (rf_md5 f)) (files t)"
      by (simp add: remoteStepFails_def list_all_iff)
    from ok nofail have "rs' = fold (\<lambda>line rs. parseLine rs line)
        (map (\<lambda>f. dropCR (md5Line f)) (files t)) []"
      by (simp add: run findStatus_fails findOutput_ok o_def split: if_splits)
    with fold_parseLine_md5 [OF wf allok, of "[]"]
    show "map fh_Hash rs' = map (\<lambda>f. projr (rf_md5 f)) (files t)"
      by simp
  next
    assume a: "\<not> remoteStepFails t \<and> list_all (\<lambda>f. length (rf_name f) < 65000) (files t)"
    then have allok: "\<forall>f \<in> set (files t). \<not> isl (rf_md5 f)"
      by (simp add: remoteStepFails_def)
    have "list_all (\<lambda>l. length l < 65536) (findOutput t)"
      unfolding list_all_iff
    proof
      fix l assume "l \<in> set (findOutput t)"
      with a obtain f where f: "f \<in> set (files t)" "l = md5Line f"
        by (auto simp: findOutput_ok)
      with allok obtain h where h: "rf_md5 f = Inr h"
        by (cases "rf_md5 f") auto
      from f wf a have "wfFile f" "length (rf_name f) < 65000"
        by (simp_all add: list_all_iff)
      from md5Line_short [OF this(1) h this(2)] f show "length l < 65536"
        by simp
    qed
    with a show "\<exists>rs. ListRemote (sshExec net) addr = Inr rs"
      by (simp add: run findStatus_fails)
  }
qed

theorem listing_aborts_on_failure_witness:
  "(\<exists>v \<in> set ((\<lambda>d. if d = ''/data'' then
        [\<lparr>walkErr = None, isDir = True, relResult = Inr ''.'', openErr = None, copyErr = None, md5hex = ''''\<rparr>,
         \<lparr>walkErr = None, isDir = False, relResult = Inr ''a.txt'', openErr = None, copyErr = None, md5hex = ''aa111''\<rparr>,
         \<lparr>walkErr = None, isDir = False, relResult = Inr ''b.txt'', openErr = Some ''permission denied'', copyErr = None, md5hex = ''''\<rparr>,
         \<lparr>walkErr = None, isDir = False, relResult = Inr ''c.txt'', openErr = None, copyErr = None, md5hex = ''cc333''\<rparr>]
        else []) (TrimRight ''/data/'' ''/'')). stepFails v) \<and>
   isl (ListLocal (\<lambda>d. if d = ''/data'' then
        [\<lparr>walkErr = None, isDir = True, relResult = Inr ''.'', openErr = None, copyErr = None, md5hex = ''''\<rparr>,
         \<lparr>walkErr = None, isDir = False, relResult = Inr ''a.txt'', openErr = None, copyErr = None, md5hex = ''aa111''\<rparr>,
         \<lparr>walkErr = None, isDir = False, relResult = Inr ''b.txt'', openErr = Some ''permission denied'', copyErr = None, md5hex = ''''\<rparr>,
         \<lparr>walkErr = None, isDir = False, relResult = Inr ''c.txt'', openErr = None, copyErr = None, md5hex = ''cc333''\<rparr>]
        else []) ''/data/'') \<and>
   ListLocal (\<lambda>d. if d = ''/data'' then
        [\<lparr>walkErr = None, isDir = True, relResult = Inr ''.'', openErr = None, copyErr = None, md5hex = ''''\<rparr>,
         \<lparr>walkErr = None, isDir = False, relResult = Inr ''a.txt'', openErr = None, copyErr = None, md5hex = ''aa111''\<rparr>]
        else []) ''/data/'' = Inr [\<lparr>fh_Path = ''a.txt'', fh_Hash = ''aa111''\<rparr>] \<and>
   \<not> (\<exists>v \<in> set ((\<lambda>d. if d = ''/data'' then
        [\<lparr>walkErr = None, isDir = True, relResult = Inr ''.'', openErr = None, copyErr = None, md5hex = ''''\<rparr>,
         \<lparr>walkErr = None, isDir = False, relResult = Inr ''a.txt'', openErr = None, copyErr = None, md5hex = ''aa111''\<rparr>]
        else []) (TrimRight ''/data/'' ''/'')). stepFails v) \<and>
   SplitN2 ''host:/data/'' = [''host'', ''/data/''] \<and>
   runErr ((\<lambda>name args. \<lparr>runErr = Some ''exit status 255'', scanned = [], scanErr = None\<rparr>)
            ''ssh'' [''host'', remoteCommand (TrimRight ''/data/'' ''/'')]) \<noteq> None \<and>
   isl (ListRemote (\<lambda>name args. \<lparr>runErr = Some ''exit status 255'', scanned = [], scanErr = None\<rparr>)
          ''host:/data/'') \<and>
   plainPath (TrimRight ''/data/'' ''/'') \<and>
   wfTree (exampleTree False) \<and> wfTree (exampleTree True) \<and>
   remoteStepFails (exampleTree False) \<and>
   isl (ListRemote (sshExec (exampleNet False)) ''host:/data/'') \<and>
   \<not> remoteStepFails (exampleTree True) \<and>
   list_all (\<lambda>f. length (rf_name f) < 65000) (files (exampleTree True)) \<and>
   ListRemote (sshExec (exampleNet True)) ''host:/data/'' =
     Inr [\<lparr>fh_Path = ''a.txt'', fh_Hash = ''0cc175b9c0f1b6a831c399e269772661''\<rparr>,
          \<lparr>fh_Path = ''sub/b'', fh_Hash = ''92eb5ffee6ae2fec3ad71c777531578f''\<rparr>] \<and>
   map fh_Hash [\<lparr>fh_Path = ''a.txt'', fh_Hash = ''0cc175b9c0f1b6a831c399e269772661''\<rparr>,
                \<lparr>fh_Path = ''sub/b'', fh_Hash = ''92eb5ffee6ae2fec3ad71c777531578f''\<rparr>]
     = map (\<lambda>f. projr (rf_md5 f)) (files (exampleTree True))"
proof -
  let ?bad = "\<lambda>d. if d = ''/data'' then
        [\<lparr>walkErr = None, isDir = True, relResult = Inr ''.'', openErr = None, copyErr = None, md5hex = ''''\<rparr>,
         \<lparr>walkErr = None, isDir = False, relResult = Inr ''a.txt'', openErr = None, copyErr = None, md5hex = ''aa111''\<rparr>,
         \<lparr>walkErr = None, isDir = False, relResult = Inr ''b.txt'', openErr = Some ''permission denied'', copyErr = None, md5hex = ''''\<rparr>,
         \<lparr>walkErr = None, isDir = False, relResult = Inr ''c.txt'', openErr = None, copyErr = None, md5hex = ''cc333''\<rparr>]
        else []"
  let ?good = "\<lambda>d. if d = ''/data'' then
        [\<lparr>walkErr = None, isDir = True, relResult = Inr ''.'', openErr = None, copyErr = None, md5hex = ''''\<rparr>,
         \<lparr>walkErr = None, isDir = False, relResult = Inr ''a.txt'', openErr = None, copyErr = None, md5hex = ''aa111''\<rparr>]
        else []"
  let ?down = "\<lambda>name args. \<lparr>runErr = Some ''exit status 255'', scanned = [], scanErr = None\<rparr>"
  let ?ls = "[\<lparr>fh_Path = ''a.txt'', fh_Hash = ''aa111''\<rparr>]"
  let ?H = "\<lambda>r d. if d = ''/data'' then Some (exampleTree r) else None"
  let ?rs = "[\<lparr>fh_Path = ''a.txt'', fh_Hash = ''0cc175b9c0f1b6a831c399e269772661''\<rparr>,
              \<lparr>fh_Path = ''sub/b'', fh_Hash = ''92eb5ffee6ae2fec3ad71c777531578f''\<rparr>]"
  have t: "TrimRight ''/data/'' ''/'' = ''/data''"
    by (simp add: TrimRight_def)
  have f: "\<exists>v \<in> set (?bad (TrimRight ''/data/'' ''/'')). stepFails v"
    by (simp add: t stepFails_def)
  have l: "ListLocal ?good ''/data/'' = Inr ?ls"
    by (simp add: ListLocal_def t walkFn_def)
  have s: "SplitN2 ''host:/data/'' = [''host'', ''/data/'']"
    by (simp add: SplitN2_def)
  have e: "runErr (?down ''ssh'' [''host'', remoteCommand (TrimRight ''/data/'' ''/'')]) \<noteq> None"
    by simp
  have p: "plainPath (TrimRight ''/data/'' ''/'')"
    by (simp add: t plainPath_def)
  have n: "exampleNet r ''host'' = Some (?H r)" for r
    by (simp add: exampleNet_def)
  have h: "?H r (TrimRight ''/data/'' ''/'') = Some (exampleTree r)" for r
    by (simp add: t)
  have w: "wfTree (exampleTree r)" for r
    by (simp add: wfTree_def exampleTree_def wfFile_def isDigest_def)
  have fails: "remoteStepFails (exampleTree False)"
    by (simp add: remoteStepFails_def exampleTree_def)
  have nofail: "\<not> remoteStepFails (exampleTree True)"
    by (simp add: remoteStepFails_def exampleTree_def)
  have short: "list_all (\<lambda>f. length (rf_name f) < 65000) (files (exampleTree True))"
    by (simp add: exampleTree_def)
  note bad = listing_aborts_on_failure
    [where fs = ?bad and dir = "''/data/''" and rs = "[]" and addr = "''host:/data/''"
       and host = "''host''" and base = "''/data/''" and ExecCommand = ?down
       and net = "exampleNet False" and H = "?H False" and t = "exampleTree False" and rs' = "[]"]
  from bad f have b1: "isl (ListLocal ?bad ''/data/'')"
    by blast
  from bad s e have b2: "isl (ListRemote ?down ''host:/data/'')"
    by blast
  from bad s p n [of False] h [of False] w [of False] fails
  have b3: "isl (ListRemote (sshExec (exampleNet False)) ''host:/data/'')"
    by blast
  have "\<exists>rs. ListRemote (sshExec (exampleNet True)) ''host:/data/'' = Inr rs"
    using listing_aborts_on_failure
      [where addr = "''host:/data/''" and host = "''host''" and base = "''/data/''"
         and net = "exampleNet True" and H = "?H True" and t = "exampleTree True"]
      s p n [of True] h [of True] w [of True] nofail short
    by blast
  then obtain rs where rs: "ListRemote (sshExec (exampleNet True)) ''host:/data/'' = Inr rs"
    by blast
  note good = listing_aborts_on_failure
    [where fs = ?good and dir = "''/data/''" and rs = ?ls and addr = "''host:/data/''"
       and host = "''host''" and base = "''/data/''"
       and net = "exampleNet True" and H = "?H True" and t = "exampleTree True" and rs' = rs]
  from good l have g1: "\<not> (\<exists>v \<in> set (?good (TrimRight ''/data/'' ''/'')). stepFails v)"
    by blast
  from good rs s p n [of True] h [of True] w [of True]
  have g2: "map fh_Hash rs = map (\<lambda>f. projr (rf_md5 f)) (files (exampleTree True))"
    by blast
  have st: "findStatus (exampleTree True) = 0"
    by (simp add: findStatus_def exampleTree_def)
  have ou: "map dropCR (findOutput (exampleTree True)) =
      [''0cc175b9c0f1b6a831c399e269772661  ./a.txt'',
       ''92eb5ffee6ae2fec3ad71c777531578f  ./sub/b c.txt'']"
    by (simp add: findOutput_def exampleTree_def md5Line_def dropCR_def)
  have sh: "list_all (\<lambda>l. length l < 65536) (findOutput (exampleTree True))"
    by (simp add: findOutput_def exampleTree_def md5Line_def)
  have f1: "Fields ''0cc175b9c0f1b6a831c399e269772661  ./a.txt'' =
      [''0cc175b9c0f1b6a831c399e269772661'', ''./a.txt'']"
    by (simp add: Fields_def spaceLen_def)
  have f2: "Fields ''92eb5ffee6ae2fec3ad71c777531578f  ./sub/b c.txt'' =
      [''92eb5ffee6ae2fec3ad71c777531578f'', ''./sub/b'', ''c.txt'']"
    by (simp add: Fields_def spaceLen_def)
  have ev: "ListRemote (sshExec (exampleNet True)) ''host:/data/'' = Inr ?rs"
    using ListRemote_ssh [where net = "exampleNet True" and H = "?H True",
        OF s p n [of True] h [of True]]
    by (simp add: st sh ou parseLine_def f1 f2 TrimPrefix_def)
  with rs g2 have g3: "map fh_Hash ?rs = map (\<lambda>f. projr (rf_md5 f)) (files (exampleTree True))"
    by simp
  from f b1 l g1 s e b2 p w [of False] w [of True] fails b3 nofail short ev g3
  show ?thesis by (intro conjI)
qed

section \<open>Properties of the session state machine\<close>

lemma inRange_nat: "inRange i xs \<Longrightarrow> nat i < length xs"
  by (simp add: inRange_def nat_less_iff)

subsection \<open>Patching one record\<close>

lemma length_patchDiffs: "length (patchDiffs ds p h) = length ds"
  by (induction ds) auto

lemma patchDiffs_absent: "p \<notin> Path ` set ds \<Longrightarrow> patchDiffs ds p h = ds"
  by (induction ds) auto

lemma patchDiffs_first:
  "p \<in> Path ` set ds \<Longrightarrow>
     \<exists>k < length ds. (\<forall>j < k. Path (ds ! j) \<noteq> p) \<and> Path (ds ! k) = p \<and>
        patchDiffs ds p h = ds[k := (ds ! k)\<lparr>DstHash := h, Status := Match\<rparr>]"
proof (induction ds)
  case Nil
  then show ?case by simp
next
  case (Cons d ds)
  show ?case
  proof (cases "Path d = p")
    case True
    then have "(\<forall>j < 0. Path ((d # ds) ! j) \<noteq> p) \<and> Path ((d # ds) ! 0) = p \<and>
        patchDiffs (d # ds) p h = (d # ds)[0 := ((d # ds) ! 0)\<lparr>DstHash := h, Status := Match\<rparr>]"
      by simp
    then show ?thesis by (intro exI [of _ 0]) simp
  next
    case False
    with Cons.prems have "p \<in> Path ` set ds" by auto
    from Cons.IH [OF this] obtain k where k: "k < length ds"
      "\<forall>j < k. Path (ds ! j) \<noteq> p" "Path (ds ! k) = p"
      "patchDiffs ds p h = ds[k := (ds ! k)\<lparr>DstHash := h, Status := Match\<rparr>]"
      by blast
    have "\<forall>j < Suc k. Path ((d # ds) ! j) \<noteq> p"
      using False k(2) by (auto simp: less_Suc_eq_0_disj)
    with k False show ?thesis
      by (intro exI [of _ "Suc k"]) simp
  qed
qed

lemma patchDiffs_cases:
  "patchDiffs ds p h = ds \<or>
   (\<exists>k < length ds. Path (ds ! k) = p \<and>
      patchDiffs ds p h = ds[k := (ds ! k)\<lparr>DstHash := h, Status := Match\<rparr>])"
  using patchDiffs_absent [of p ds h] patchDiffs_first [of p ds h] by blast

lemma Update_syncDone_ok:
  "inRange (Index m) (Diffs m) \<Longrightarrow>
     Update m (syncDoneMsg (Index m) p None h) =
       Inr (m\<lparr>Syncing := Syncing m - {p},
              Diffs := (Diffs m)[nat (Index m) := patchDiffs (Diffs m ! nat (Index m)) p h]\<rparr>, None)"
  by (simp add: Update_def Let_def)

text \<open>
  The destination hash written by a successful done event is the hash the event carries,
  read afresh from the source after the copy. The record keeps the source hash of the last
  recomputation, so the two differ when the source file has changed in between: here the
  record has source hash \<open>x\<close>, the event carries \<open>z\<close>.
\<close>

theorem sync_done_success_counterexample:
  "Update \<lparr>Pairs = [\<lparr>Source = ''src'', Destination = ''dst''\<rparr>], Index = 0,
           Diffs = [[\<lparr>Path = ''a'', SrcHash = ''x'', DstHash = ''y'', Status = Mismatch\<rparr>]],
           Loading = False, Syncing = {''a''}\<rparr>
          (syncDoneMsg 0 ''a'' None ''z'')
   = Inr (\<lparr>Pairs = [\<lparr>Source = ''src'', Destination = ''dst''\<rparr>], Index = 0,
           Diffs = [[\<lparr>Path = ''a'', SrcHash = ''x'', DstHash = ''z'', Status = Match\<rparr>]],
           Loading = False, Syncing = {}\<rparr>, None)
   \<and> ''z'' \<noteq> ''x''"
  by (simp add: Update_def inRange_def)

text \<open>
  Claim C2, as the code has it. After a successful sync-done event for the current pair
  whose path \<open>p\<close> occurs in the current diff list, the first record with path \<open>p\<close> has
  status \<open>Match\<close> and as destination hash the hash \<open>h\<close> carried by the event, its other
  fields as before; \<open>p\<close> is no longer in the in-flight set, which is otherwise unchanged.
\<close>

theorem sync_done_success:
  assumes "inRange (Index m) (Diffs m)"
    and "p \<in> Path ` set (Diffs m ! nat (Index m))"
  shows "\<exists>m' k. Update m (syncDoneMsg (Index m) p None h) = Inr (m', None) \<and>
           Syncing m' = Syncing m - {p} \<and> p \<notin> Syncing m' \<and>
           k < length (Diffs m ! nat (Index m)) \<and>
           (\<forall>j < k. Path (Diffs m ! nat (Index m) ! j) \<noteq> p) \<and>
           Path (Diffs m ! nat (Index m) ! k) = p \<and>
           Diffs m' ! nat (Index m) ! k =
             (Diffs m ! nat (Index m) ! k)\<lparr>DstHash := h, Status := Match\<rparr>"
proof -
  let ?i = "nat (Index m)"
  let ?ds = "Diffs m ! ?i"
  from patchDiffs_first [OF assms(2), of h] obtain k where k: "k < length ?ds"
    "\<forall>j < k. Path (?ds ! j) \<noteq> p" "Path (?ds ! k) = p"
    "patchDiffs ?ds p h = ?ds[k := (?ds ! k)\<lparr>DstHash := h, Status := Match\<rparr>]"
    by blast
  have i: "?i < length (Diffs m)"
    using assms(1) by (rule inRange_nat)
  let ?m' = "m\<lparr>Syncing := Syncing m - {p}, Diffs := (Diffs m)[?i := patchDiffs ?ds p h]\<rparr>"
  have "Diffs ?m' ! ?i ! k = (?ds ! k)\<lparr>DstHash := h, Status := Match\<rparr>"
    using i k(1) by (simp add: k(4))
  with k(1,2,3) Update_syncDone_ok [OF assms(1), of p h] show ?thesis
    by (intro exI [of _ ?m'] exI [of _ k]) simp
qed

theorem sync_done_success_witness:
  "inRange (Index \<lparr>Pairs = [\<lparr>Source = ''src'', Destination = ''dst''\<rparr>], Index = 0,
           Diffs = [[\<lparr>Path = ''a'', SrcHash = ''x'', DstHash = ''y'', Status = Mismatch\<rparr>]],
           Loading = False, Syncing = {''a''}\<rparr>)
      (Diffs \<lparr>Pairs = [\<lparr>Source = ''src'', Destination = ''dst''\<rparr>], Index = 0,
           Diffs = [[\<lparr>Path = ''a'', SrcHash = ''x'', DstHash = ''y'', Status = Mismatch\<rparr>]],
           Loading = False, Syncing = {''a''}\<rparr>) \<and>
   (\<exists>m'. Update \<lparr>Pairs = [\<lparr>Source = ''src'', Destination = ''dst''\<rparr>], Index = 0,
           Diffs = [[\<lparr>Path = ''a'', SrcHash = ''x'', DstHash = ''y'', Status = Mismatch\<rparr>]],
           Loading = False, Syncing = {''a''}\<rparr> (syncDoneMsg 0 ''a'' None ''x'') = Inr (m', None) \<and>
         Syncing m' = {} \<and>
         Diffs m' ! 0 ! 0 = \<lparr>Path = ''a'', SrcHash = ''x'', DstHash = ''x'', Status = Match\<rparr>)"
proof -
  let ?m = "\<lparr>Pairs = [\<lparr>Source = ''src'', Destination = ''dst''\<rparr>], Index = 0,
           Diffs = [[\<lparr>Path = ''a'', SrcHash = ''x'', DstHash = ''y'', Status = Mismatch\<rparr>]],
           Loading = False, Syncing = {''a''}\<rparr>"
  have r: "inRange (Index ?m) (Diffs ?m)" by (simp add: inRange_def)
  have p: "''a'' \<in> Path ` set (Diffs ?m ! nat (Index ?m))" by simp
  from sync_done_success [OF r p, of "''x''"] r show ?thesis
    by auto
qed

text \<open>
  Claim C3. A failed sync-done event for the current pair leaves every diff record as it
  was; the resulting session is the old one with the path removed from the in-flight set.
\<close>

theorem sync_done_failure:
  "Update m (syncDoneMsg (Index m) p (Some e) h) = Inr (m\<lparr>Syncing := Syncing m - {p}\<rparr>, None)
   \<and> Diffs (m\<lparr>Syncing := Syncing m - {p}\<rparr>) = Diffs m"
  by (simp add: Update_def Let_def)

theorem sync_done_failure_witness:
  "Update \<lparr>Pairs = [\<lparr>Source = ''src'', Destination = ''dst''\<rparr>], Index = 0,
           Diffs = [[\<lparr>Path = ''a'', SrcHash = ''x'', DstHash = ''y'', Status = Mismatch\<rparr>]],
           Loading = False, Syncing = {''a''}\<rparr>
          (syncDoneMsg 0 ''a'' (Some ''exit status 23'') ''x'')
   = Inr (\<lparr>Pairs = [\<lparr>Source = ''src'', Destination = ''dst''\<rparr>], Index = 0,
           Diffs = [[\<lparr>Path = ''a'', SrcHash = ''x'', DstHash = ''y'', Status = Mismatch\<rparr>]],
           Loading = False, Syncing = {}\<rparr>, None)"
  using sync_done_failure [of "\<lparr>Pairs = [\<lparr>Source = ''src'', Destination = ''dst''\<rparr>], Index = 0,
           Diffs = [[\<lparr>Path = ''a'', SrcHash = ''x'', DstHash = ''y'', Status = Mismatch\<rparr>]],
           Loading = False, Syncing = {''a''}\<rparr>" "''a''" "''exit status 23''" "''x''"]
  by simp

text \<open>
  Claim C4. A sync-start or sync-done event whose pair index is not the current index
  leaves the whole session unchanged: all diff lists, the in-flight set and every other
  field; no command is issued.
\<close>

theorem other_pair_events_ignored:
  assumes "i \<noteq> Index m"
  shows "Update m (syncStartMsg i p) = Inr (m, None) \<and>
         Update m (syncDoneMsg i p err h) = Inr (m, None)"
  using assms by (simp add: Update_def)

theorem other_pair_events_ignored_witness:
  "(1::int) \<noteq> Index \<lparr>Pairs = [\<lparr>Source = ''s0'', Destination = ''d0''\<rparr>, \<lparr>Source = ''s1'', Destination = ''d1''\<rparr>],
           Index = 0,
           Diffs = [[\<lparr>Path = ''a'', SrcHash = ''x'', DstHash = ''y'', Status = Mismatch\<rparr>], []],
           Loading = False, Syncing = {''a''}\<rparr> \<and>
   Update \<lparr>Pairs = [\<lparr>Source = ''s0'', Destination = ''d0''\<rparr>, \<lparr>Source = ''s1'', Destination = ''d1''\<rparr>],
           Index = 0,
           Diffs = [[\<lparr>Path = ''a'', SrcHash = ''x'', DstHash = ''y'', Status = Mismatch\<rparr>], []],
           Loading = False, Syncing = {''a''}\<rparr> (syncStartMsg 1 ''b'')
     = Inr (\<lparr>Pairs = [\<lparr>Source = ''s0'', Destination = ''d0''\<rparr>, \<lparr>Source = ''s1'', Destination = ''d1''\<rparr>],
           Index = 0,
           Diffs = [[\<lparr>Path = ''a'', SrcHash = ''x'', DstHash = ''y'', Status = Mismatch\<rparr>], []],
           Loading = False, Syncing = {''a''}\<rparr>, None) \<and>
   Update \<lparr>Pairs = [\<lparr>Source = ''s0'', Destination = ''d0''\<rparr>, \<lparr>Source = ''s1'', Destination = ''d1''\<rparr>],
           Index = 0,
           Diffs = [[\<lparr>Path = ''a'', SrcHash = ''x'', DstHash = ''y'', Status = Mismatch\<rparr>], []],
           Loading = False, Syncing = {''a''}\<rparr> (syncDoneMsg 1 ''a'' None ''x'')
     = Inr (\<lparr>Pairs = [\<lparr>Source = ''s0'', Destination = ''d0''\<rparr>, \<lparr>Source = ''s1'', Destination = ''d1''\<rparr>],
           Index = 0,
           Diffs = [[\<lparr>Path = ''a'', SrcHash = ''x'', DstHash = ''y'', Status = Mismatch\<rparr>], []],
           Loading = False, Syncing = {''a''}\<rparr>, None)"
proof -
  let ?m = "\<lparr>Pairs = [\<lparr>Source = ''s0'', Destination = ''d0''\<rparr>, \<lparr>Source = ''s1'', Destination = ''d1''\<rparr>],
           Index = 0,
           Diffs = [[\<lparr>Path = ''a'', SrcHash = ''x'', DstHash = ''y'', Status = Mismatch\<rparr>], []],
           Loading = False, Syncing = {''a''}\<rparr>"
  have n: "(1::int) \<noteq> Index ?m" by simp
  from other_pair_events_ignored [OF n, of "''b''"] other_pair_events_ignored [OF n, of "''a''" None "''x''"] n
  show ?thesis by blast
qed

subsection \<open>The frame of a patch\<close>

text \<open>
  Claim C6. A successful sync-done event for the current pair changes at most one record
  of the current diff list, one whose path is the event's path, and of that record only
  the destination hash and the status: every record keeps its path and source hash, the
  other records of the list, the diff lists of the other pairs, the pair list, the current
  index and the loading flag are unchanged.
\<close>

theorem sync_done_patch_frame:
  assumes "inRange (Index m) (Diffs m)"
  shows "\<exists>m'. Update m (syncDoneMsg (Index m) p None h) = Inr (m', None) \<and>
           Pairs m' = Pairs m \<and> Index m' = Index m \<and> Loading m' = Loading m \<and>
           length (Diffs m') = length (Diffs m) \<and>
           (\<forall>i < length (Diffs m). i \<noteq> nat (Index m) \<longrightarrow> Diffs m' ! i = Diffs m ! i) \<and>
           length (Diffs m' ! nat (Index m)) = length (Diffs m ! nat (Index m)) \<and>
           (\<forall>j < length (Diffs m ! nat (Index m)).
              Path (Diffs m' ! nat (Index m) ! j) = Path (Diffs m ! nat (Index m) ! j) \<and>
              SrcHash (Diffs m' ! nat (Index m) ! j) = SrcHash (Diffs m ! nat (Index m) ! j) \<and>
              (Diffs m' ! nat (Index m) ! j \<noteq> Diffs m ! nat (Index m) ! j \<longrightarrow>
                 Path (Diffs m ! nat (Index m) ! j) = p \<and>
                 (\<forall>k < length (Diffs m ! nat (Index m)).
                    k \<noteq> j \<longrightarrow> Diffs m' ! nat (Index m) ! k = Diffs m ! nat (Index m) ! k)))"
proof -
  let ?i = "nat (Index m)"
  let ?ds = "Diffs m ! ?i"
  let ?ds' = "patchDiffs ?ds p h"
  let ?m' = "m\<lparr>Syncing := Syncing m - {p}, Diffs := (Diffs m)[?i := ?ds']\<rparr>"
  have i: "?i < length (Diffs m)"
    using assms by (rule inRange_nat)
  have upd: "Update m (syncDoneMsg (Index m) p None h) = Inr (?m', None)"
    using assms by (rule Update_syncDone_ok)
  have cur: "Diffs ?m' ! ?i = ?ds'"
    using i by simp
  have others: "\<forall>i < length (Diffs m). i \<noteq> ?i \<longrightarrow> Diffs ?m' ! i = Diffs m ! i"
    by simp
  have recs: "\<forall>j < length ?ds.
      Path (?ds' ! j) = Path (?ds ! j) \<and> SrcHash (?ds' ! j) = SrcHash (?ds ! j) \<and>
      (?ds' ! j \<noteq> ?ds ! j \<longrightarrow>
         Path (?ds ! j) = p \<and> (\<forall>k < length ?ds. k \<noteq> j \<longrightarrow> ?ds' ! k = ?ds ! k))"
  proof (rule disjE [OF patchDiffs_cases [of ?ds p h]])
    assume "?ds' = ?ds"
    then show ?thesis by simp
  next
    assume "\<exists>k < length ?ds. Path (?ds ! k) = p \<and>
              ?ds' = ?ds[k := (?ds ! k)\<lparr>DstHash := h, Status := Match\<rparr>]"
    then obtain k where k: "k < length ?ds" "Path (?ds ! k) = p"
      "?ds' = ?ds[k := (?ds ! k)\<lparr>DstHash := h, Status := Match\<rparr>]"
      by blast
    show ?thesis
      unfolding k(3) using k(1,2) by (auto simp: nth_list_update)
  qed
  show ?thesis
    apply (rule exI [of _ ?m'])
    apply (intro conjI)
    apply (rule upd)
    apply simp
    apply simp
    apply simp
    apply simp
    apply (rule others)
    apply (simp only: cur length_patchDiffs)
    apply (simp only: cur)
    apply (rule recs)
    done
qed

theorem sync_done_patch_frame_witness:
  "inRange (Index \<lparr>Pairs = [\<lparr>Source = ''s0'', Destination = ''d0''\<rparr>, \<lparr>Source = ''s1'', Destination = ''d1''\<rparr>],
           Index = 1,
           Diffs = [[\<lparr>Path = ''a'', SrcHash = ''x'', DstHash = ''y'', Status = Mismatch\<rparr>],
                    [\<lparr>Path = ''a'', SrcHash = ''u'', DstHash = '''', Status = MissingDestination\<rparr>,
                     \<lparr>Path = ''b'', SrcHash = ''v'', DstHash = ''w'', Status = Mismatch\<rparr>]],
           Loading = False, Syncing = {''a'', ''b''}\<rparr>)
      (Diffs \<lparr>Pairs = [\<lparr>Source = ''s0'', Destination = ''d0''\<rparr>, \<lparr>Source = ''s1'', Destination = ''d1''\<rparr>],
           Index = 1,
           Diffs = [[\<lparr>Path = ''a'', SrcHash = ''x'', DstHash = ''y'', Status = Mismatch\<rparr>],
                    [\<lparr>Path = ''a'', SrcHash = ''u'', DstHash = '''', Status = MissingDestination\<rparr>,
                     \<lparr>Path = ''b'', SrcHash = ''v'', DstHash = ''w'', Status = Mismatch\<rparr>]],
           Loading = False, Syncing = {''a'', ''b''}\<rparr>) \<and>
   (\<exists>m'. Update \<lparr>Pairs = [\<lparr>Source = ''s0'', Destination = ''d0''\<rparr>, \<lparr>Source = ''s1'', Destination = ''d1''\<rparr>],
           Index = 1,
           Diffs = [[\<lparr>Path = ''a'', SrcHash = ''x'', DstHash = ''y'', Status = Mismatch\<rparr>],
                    [\<lparr>Path = ''a'', SrcHash = ''u'', DstHash = '''', Status = MissingDestination\<rparr>,
                     \<lparr>Path = ''b'', SrcHash = ''v'', DstHash = ''w'', Status = Mismatch\<rparr>]],
           Loading = False, Syncing = {''a'', ''b''}\<rparr> (syncDoneMsg 1 ''b'' None ''v'') = Inr (m', None) \<and>
         Pairs m' = [\<lparr>Source = ''s0'', Destination = ''d0''\<rparr>, \<lparr>Source = ''s1'', Destination = ''d1''\<rparr>] \<and>
         Index m' = 1 \<and>
         Diffs m' ! 0 = [\<lparr>Path = ''a'', SrcHash = ''x'', DstHash = ''y'', Status = Mismatch\<rparr>] \<and>
         Diffs m' ! 1 ! 0 = \<lparr>Path = ''a'', SrcHash = ''u'', DstHash = '''', Status = MissingDestination\<rparr>)"
proof -
  let ?m = "\<lparr>Pairs = [\<lparr>Source = ''s0'', Destination = ''d0''\<rparr>, \<lparr>Source = ''s1'', Destination = ''d1''\<rparr>],
           Index = 1,
           Diffs = [[\<lparr>Path = ''a'', SrcHash = ''x'', DstHash = ''y'', Status = Mismatch\<rparr>],
                    [\<lparr>Path = ''a'', SrcHash = ''u'', DstHash = '''', Status = MissingDestination\<rparr>,
                     \<lparr>Path = ''b'', SrcHash = ''v'', DstHash = ''w'', Status = Mismatch\<rparr>]],
           Loading = False, Syncing = {''a'', ''b''}\<rparr>"
  have r: "inRange (Index ?m) (Diffs ?m)" by (simp add: inRange_def)
  from sync_done_patch_frame [OF r, of "''b''" "''v''"] obtain m' where
    u: "Update ?m (syncDoneMsg (Index ?m) ''b'' None ''v'') = Inr (m', None)"
    and f: "Pairs m' = Pairs ?m" "Index m' = Index ?m"
      "\<forall>i < length (Diffs ?m). i \<noteq> nat (Index ?m) \<longrightarrow> Diffs m' ! i = Diffs ?m ! i"
    and g: "\<forall>j < length (Diffs ?m ! nat (Index ?m)).
              Path (Diffs m' ! nat (Index ?m) ! j) = Path (Diffs ?m ! nat (Index ?m) ! j) \<and>
              SrcHash (Diffs m' ! nat (Index ?m) ! j) = SrcHash (Diffs ?m ! nat (Index ?m) ! j) \<and>
              (Diffs m' ! nat (Index ?m) ! j \<noteq> Diffs ?m ! nat (Index ?m) ! j \<longrightarrow>
                 Path (Diffs ?m ! nat (Index ?m) ! j) = ''b'' \<and>
                 (\<forall>k < length (Diffs ?m ! nat (Index ?m)).
                    k \<noteq> j \<longrightarrow> Diffs m' ! nat (Index ?m) ! k = Diffs ?m ! nat (Index ?m) ! k))"
    by blast
  from f(3) have d0: "Diffs m' ! 0 = Diffs ?m ! 0" by simp
  have "0 < length (Diffs ?m ! nat (Index ?m))" by simp
  from g [rule_format, OF this]
  have "Diffs m' ! nat (Index ?m) ! 0 \<noteq> Diffs ?m ! nat (Index ?m) ! 0 \<longrightarrow>
      Path (Diffs ?m ! nat (Index ?m) ! 0) = ''b''"
    by blast
  then have d1: "Diffs m' ! 1 ! 0 = Diffs ?m ! 1 ! 0" by auto
  from u f(1,2) d0 d1 r show ?thesis by simp
qed

subsection \<open>The sync request\<close>

lemma set_syncCmds:
  "set (syncCmds idx pair ds) =
     (\<Union>d \<in> {d \<in> set ds. Status d = MissingDestination \<or> Status d = Mismatch}.
        {syncStartCmd idx (Path d), syncFileCmd idx (Path d) pair})"
  by (auto simp: syncCmds_def split: if_splits)

lemma Update_sync_ok:
  "inRange (Index m) (Pairs m) \<Longrightarrow> inRange (Index m) (Diffs m) \<Longrightarrow>
     Update m (KeyMsg ''s'') =
       Inr (m, Batch (syncCmds (Index m) (Pairs m ! nat (Index m)) (Diffs m ! nat (Index m))))"
  by (simp add: Update_def Let_def)

lemma syncCmds_Nil:
  "syncCmds idx pair ds = [] \<longleftrightarrow>
     \<not> (\<exists>d \<in> set ds. Status d = MissingDestination \<or> Status d = Mismatch)"
proof -
  have "syncCmds idx pair ds = [] \<longleftrightarrow> set (syncCmds idx pair ds) = {}"
    by simp
  also have "\<dots> \<longleftrightarrow> \<not> (\<exists>d \<in> set ds. Status d = MissingDestination \<or> Status d = Mismatch)"
    unfolding set_syncCmds by auto
  finally show ?thesis .
qed

text \<open>With nothing to repair the sync request returns the \<open>nil\<close> command.\<close>

lemma sync_request_nothing_to_repair:
  assumes "inRange (Index m) (Pairs m)" and "inRange (Index m) (Diffs m)"
    and "\<not> (\<exists>d \<in> set (Diffs m ! nat (Index m)).
              Status d = MissingDestination \<or> Status d = Mismatch)"
  shows "Update m (KeyMsg ''s'') = Inr (m, None)"
proof -
  have "syncCmds (Index m) (Pairs m ! nat (Index m)) (Diffs m ! nat (Index m)) = []"
    using assms(3) syncCmds_Nil by blast
  with Update_sync_ok [OF assms(1,2)] show ?thesis
    by (simp add: Batch_def)
qed

text \<open>
  Claim C5. On a sync request the session is returned unchanged with the command
  \<open>tea.Batch\<close> makes of a list of commands (the \<open>nil\<close> command exactly when no record is
  selected); the paths with a start command in that list, and the paths with a repair
  command for the current pair, are exactly the paths of the records of the current diff
  list whose status is \<open>MissingDestination\<close> or \<open>Mismatch\<close>, and every command of the list
  belongs to such a record, never to one with status \<open>MissingSource\<close> or \<open>Match\<close>.
\<close>

theorem sync_request_selects:
  assumes "inRange (Index m) (Pairs m)" and "inRange (Index m) (Diffs m)"
  shows "\<exists>cmds. Update m (KeyMsg ''s'') = Inr (m, Batch cmds) \<and>
           (Batch cmds = None \<longleftrightarrow>
              \<not> (\<exists>d \<in> set (Diffs m ! nat (Index m)).
                    Status d = MissingDestination \<or> Status d = Mismatch)) \<and>
           {p. syncStartCmd (Index m) p \<in> set cmds} =
             Path ` {d \<in> set (Diffs m ! nat (Index m)).
                      Status d = MissingDestination \<or> Status d = Mismatch} \<and>
           {p. syncFileCmd (Index m) p (Pairs m ! nat (Index m)) \<in> set cmds} =
             Path ` {d \<in> set (Diffs m ! nat (Index m)).
                      Status d = MissingDestination \<or> Status d = Mismatch} \<and>
           (\<forall>c \<in> set cmds. \<exists>d \<in> set (Diffs m ! nat (Index m)).
              (Status d = MissingDestination \<or> Status d = Mismatch) \<and>
              Status d \<noteq> MissingSource \<and> Status d \<noteq> Match \<and>
              (c = syncStartCmd (Index m) (Path d) \<or>
               c = syncFileCmd (Index m) (Path d) (Pairs m ! nat (Index m))))"
proof -
  let ?cmds = "syncCmds (Index m) (Pairs m ! nat (Index m)) (Diffs m ! nat (Index m))"
  have "Update m (KeyMsg ''s'') = Inr (m, Batch ?cmds)"
    using assms by (rule Update_sync_ok)
  moreover have "Batch ?cmds = None \<longleftrightarrow>
      \<not> (\<exists>d \<in> set (Diffs m ! nat (Index m)).
            Status d = MissingDestination \<or> Status d = Mismatch)"
    by (simp add: Batch_def syncCmds_Nil)
  moreover have "{p. syncStartCmd (Index m) p \<in> set ?cmds} =
      Path ` {d \<in> set (Diffs m ! nat (Index m)). Status d = MissingDestination \<or> Status d = Mismatch}"
    by (auto simp: set_syncCmds)
  moreover have "{p. syncFileCmd (Index m) p (Pairs m ! nat (Index m)) \<in> set ?cmds} =
      Path ` {d \<in> set (Diffs m ! nat (Index m)). Status d = MissingDestination \<or> Status d = Mismatch}"
    by (auto simp: set_syncCmds)
  moreover have "\<forall>c \<in> set ?cmds. \<exists>d \<in> set (Diffs m ! nat (Index m)).
              (Status d = MissingDestination \<or> Status d = Mismatch) \<and>
              Status d \<noteq> MissingSource \<and> Status d \<noteq> Match \<and>
              (c = syncStartCmd (Index m) (Path d) \<or>
               c = syncFileCmd (Index m) (Path d) (Pairs m ! nat (Index m)))"
    by (auto simp: set_syncCmds)
  ultimately show ?thesis
    by (intro exI [of _ ?cmds] conjI)
qed

theorem sync_request_selects_witness:
  "inRange (Index \<lparr>Pairs = [\<lparr>Source = ''src'', Destination = ''dst''\<rparr>], Index = 0,
           Diffs = [[\<lparr>Path = ''a'', SrcHash = ''x'', DstHash = ''x'', Status = Match\<rparr>,
                     \<lparr>Path = ''b'', SrcHash = ''u'', DstHash = '''', Status = MissingDestination\<rparr>,
                     \<lparr>Path = ''c'', SrcHash = '''', DstHash = ''w'', Status = MissingSource\<rparr>,
                     \<lparr>Path = ''d'', SrcHash = ''v'', DstHash = ''w'', Status = Mismatch\<rparr>]],
           Loading = False, Syncing = {}\<rparr>)
      (Pairs \<lparr>Pairs = [\<lparr>Source = ''src'', Destination = ''dst''\<rparr>], Index = 0,
           Diffs = [[\<lparr>Path = ''a'', SrcHash = ''x'', DstHash = ''x'', Status = Match\<rparr>,
                     \<lparr>Path = ''b'', SrcHash = ''u'', DstHash = '''', Status = MissingDestination\<rparr>,
                     \<lparr>Path = ''c'', SrcHash = '''', DstHash = ''w'', Status = MissingSource\<rparr>,
                     \<lparr>Path = ''d'', SrcHash = ''v'', DstHash = ''w'', Status = Mismatch\<rparr>]],
           Loading = False, Syncing = {}\<rparr>) \<and>
   inRange (Index \<lparr>Pairs = [\<lparr>Source = ''src'', Destination = ''dst''\<rparr>], Index = 0,
           Diffs = [[\<lparr>Path = ''a'', SrcHash = ''x'', DstHash = ''x'', Status = Match\<rparr>,
                     \<lparr>Path = ''b'', SrcHash = ''u'', DstHash = '''', Status = MissingDestination\<rparr>,
                     \<lparr>Path = ''c'', SrcHash = '''', DstHash = ''w'', Status = MissingSource\<rparr>,
                     \<lparr>Path = ''d'', SrcHash = ''v'', DstHash = ''w'', Status = Mismatch\<rparr>]],
           Loading = False, Syncing = {}\<rparr>)
      (Diffs \<lparr>Pairs = [\<lparr>Source = ''src'', Destination = ''dst''\<rparr>], Index = 0,
           Diffs = [[\<lparr>Path = ''a'', SrcHash = ''x'', DstHash = ''x'', Status = Match\<rparr>,
                     \<lparr>Path = ''b'', SrcHash = ''u'', DstHash = '''', Status = MissingDestination\<rparr>,
                     \<lparr>Path = ''c'', SrcHash = '''', DstHash = ''w'', Status = MissingSource\<rparr>,
                     \<lparr>Path = ''d'', SrcHash = ''v'', DstHash = ''w'', Status = Mismatch\<rparr>]],
           Loading = False, Syncing = {}\<rparr>) \<and>
   (\<exists>cmds. Update \<lparr>Pairs = [\<lparr>Source = ''src'', Destination = ''dst''\<rparr>], Index = 0,
           Diffs = [[\<lparr>Path = ''a'', SrcHash = ''x'', DstHash = ''x'', Status = Match\<rparr>,
                     \<lparr>Path = ''b'', SrcHash = ''u'', DstHash = '''', Status = MissingDestination\<rparr>,
                     \<lparr>Path = ''c'', SrcHash = '''', DstHash = ''w'', Status = MissingSource\<rparr>,
                     \<lparr>Path = ''d'', SrcHash = ''v'', DstHash = ''w'', Status = Mismatch\<rparr>]],
           Loading = False, Syncing = {}\<rparr> (KeyMsg ''s'')
       = Inr (\<lparr>Pairs = [\<lparr>Source = ''src'', Destination = ''dst''\<rparr>], Index = 0,
           Diffs = [[\<lparr>Path = ''a'', SrcHash = ''x'', DstHash = ''x'', Status = Match\<rparr>,
                     \<lparr>Path = ''b'', SrcHash = ''u'', DstHash = '''', Status = MissingDestination\<rparr>,
                     \<lparr>Path = ''c'', SrcHash = '''', DstHash = ''w'', Status = MissingSource\<rparr>,
                     \<lparr>Path = ''d'', SrcHash = ''v'', DstHash = ''w'', Status = Mismatch\<rparr>]],
           Loading = False, Syncing = {}\<rparr>, Batch cmds) \<and>
      {p. syncStartCmd 0 p \<in> set cmds} = {''b'', ''d''} \<and>
      {p. syncFileCmd 0 p \<lparr>Source = ''src'', Destination = ''dst''\<rparr> \<in> set cmds} = {''b'', ''d''}) \<and>
   Update \<lparr>Pairs = [\<lparr>Source = ''src'', Destination = ''dst''\<rparr>], Index = 0,
           Diffs = [[\<lparr>Path = ''a'', SrcHash = ''x'', DstHash = ''x'', Status = Match\<rparr>]],
           Loading = False, Syncing = {}\<rparr> (KeyMsg ''s'')
     = Inr (\<lparr>Pairs = [\<lparr>Source = ''src'', Destination = ''dst''\<rparr>], Index = 0,
           Diffs = [[\<lparr>Path = ''a'', SrcHash = ''x'', DstHash = ''x'', Status = Match\<rparr>]],
           Loading = False, Syncing = {}\<rparr>, None)"
proof -
  let ?n = "\<lparr>Pairs = [\<lparr>Source = ''src'', Destination = ''dst''\<rparr>], Index = 0,
           Diffs = [[\<lparr>Path = ''a'', SrcHash = ''x'', DstHash = ''x'', Status = Match\<rparr>]],
           Loading = False, Syncing = {}\<rparr>"
  have n1: "inRange (Index ?n) (Pairs ?n)" by (simp add: inRange_def)
  have n2: "inRange (Index ?n) (Diffs ?n)" by (simp add: inRange_def)
  have n3: "\<not> (\<exists>d \<in> set (Diffs ?n ! nat (Index ?n)).
               Status d = MissingDestination \<or> Status d = Mismatch)"
    by simp
  from sync_request_selects [OF n1 n2] obtain cs where
    "Update ?n (KeyMsg ''s'') = Inr (?n, Batch cs)"
    "Batch cs = None \<longleftrightarrow>
       \<not> (\<exists>d \<in> set (Diffs ?n ! nat (Index ?n)).
             Status d = MissingDestination \<or> Status d = Mismatch)"
    by (elim exE conjE) (rule that)
  with n3 have nil: "Update ?n (KeyMsg ''s'') = Inr (?n, None)"
    by simp
  let ?m = "\<lparr>Pairs = [\<lparr>Source = ''src'', Destination = ''dst''\<rparr>], Index = 0,
           Diffs = [[\<lparr>Path = ''a'', SrcHash = ''x'', DstHash = ''x'', Status = Match\<rparr>,
                     \<lparr>Path = ''b'', SrcHash = ''u'', DstHash = '''', Status = MissingDestination\<rparr>,
                     \<lparr>Path = ''c'', SrcHash = '''', DstHash = ''w'', Status = MissingSource\<rparr>,
                     \<lparr>Path = ''d'', SrcHash = ''v'', DstHash = ''w'', Status = Mismatch\<rparr>]],
           Loading = False, Syncing = {}\<rparr>"
  have r1: "inRange (Index ?m) (Pairs ?m)" by (simp add: inRange_def)
  have r2: "inRange (Index ?m) (Diffs ?m)" by (simp add: inRange_def)
  have sel: "Path ` {d \<in> set (Diffs ?m ! nat (Index ?m)).
                Status d = MissingDestination \<or> Status d = Mismatch} = {''b'', ''d''}"
  proof -
    have gen: "Path ` {d \<in> set ds. Q d} = set (map Path (filter Q ds))"
      for ds :: "Diff list" and Q
      by auto
    show ?thesis unfolding gen by simp
  qed
  from sync_request_selects [OF r1 r2] obtain cmds where
    "Update ?m (KeyMsg ''s'') = Inr (?m, Batch cmds)"
    "{p. syncStartCmd (Index ?m) p \<in> set cmds} =
       Path ` {d \<in> set (Diffs ?m ! nat (Index ?m)).
                Status d = MissingDestination \<or> Status d = Mismatch}"
    "{p. syncFileCmd (Index ?m) p (Pairs ?m ! nat (Index ?m)) \<in> set cmds} =
       Path ` {d \<in> set (Diffs ?m ! nat (Index ?m)).
                Status d = MissingDestination \<or> Status d = Mismatch}"
    by blast
  then have "Update ?m (KeyMsg ''s'') = Inr (?m, Batch cmds) \<and>
      {p. syncStartCmd 0 p \<in> set cmds} = {''b'', ''d''} \<and>
      {p. syncFileCmd 0 p \<lparr>Source = ''src'', Destination = ''dst''\<rparr> \<in> set cmds} = {''b'', ''d''}"
    unfolding sel by simp
  then show ?thesis using r1 r2 nil by blast
qed

subsection \<open>Switching pairs\<close>

lemma next_index:
  fixes i n :: int
  assumes "0 \<le> i" and "i < n"
  shows "(if i < n - 1 then i + 1 else 0) = (i + 1) mod n"
proof (cases "i < n - 1")
  case True
  with assms show ?thesis by simp
next
  case False
  with assms have "i + 1 = n" by simp
  with False show ?thesis by simp
qed

lemma Update_tab:
  assumes "inRange (Index m) (Pairs m)"
  shows "Update m (KeyMsg ''tab'') =
           Inr (m\<lparr>Index := (Index m + 1) mod int (length (Pairs m))\<rparr>, None)"
proof -
  from assms have "0 \<le> Index m" and "Index m < int (length (Pairs m))"
    by (simp_all add: inRange_def)
  from next_index [OF this] show ?thesis
    by (cases "Index m < int (length (Pairs m)) - 1") (simp_all add: Update_def)
qed

text \<open>
  The initial session of a configuration with at least one pair has its index in range of
  the pair list and of the diff lists, one list per pair.
\<close>

lemma NewModel_inRange:
  "DirectoryPairs cfg \<noteq> [] \<Longrightarrow>
     inRange (Index (NewModel fs ExecCommand cfg)) (Pairs (NewModel fs ExecCommand cfg)) \<and>
     inRange (Index (NewModel fs ExecCommand cfg)) (Diffs (NewModel fs ExecCommand cfg)) \<and>
     length (Diffs (NewModel fs ExecCommand cfg)) = length (Pairs (NewModel fs ExecCommand cfg))"
  by (simp add: NewModel_def inRange_def computeAllDiffs_def)

text \<open>The index stays an index into the pair list, whatever the message.\<close>

lemma Update_keeps_inRange:
  assumes "inRange (Index m) (Pairs m)" and "Update m msg = Inr (m', c)"
  shows "inRange (Index m') (Pairs m') \<and> Pairs m' = Pairs m"
proof (cases msg)
  case (KeyMsg k)
  with assms show ?thesis
    by (auto simp: Update_def inRange_def Let_def split: if_splits)
qed (use assms in \<open>auto simp: Update_def Let_def inRange_def split: if_splits\<close>)

lemma repeatUpdate_tab:
  "inRange (Index m) (Pairs m) \<Longrightarrow>
     repeatUpdate k (KeyMsg ''tab'') m =
       Inr (m\<lparr>Index := (Index m + int k) mod int (length (Pairs m))\<rparr>)"
proof (induction k arbitrary: m)
  case 0
  then have "Index m mod int (length (Pairs m)) = Index m"
    by (simp add: inRange_def)
  then show ?case by simp
next
  case (Suc k)
  let ?n = "int (length (Pairs m))"
  let ?m1 = "m\<lparr>Index := (Index m + 1) mod ?n\<rparr>"
  from Suc.prems have pos: "0 < ?n"
    unfolding inRange_def by linarith
  then have "inRange (Index ?m1) (Pairs ?m1)"
    by (simp add: inRange_def)
  from Suc.IH [OF this]
  have "repeatUpdate k (KeyMsg ''tab'') ?m1 =
          Inr (m\<lparr>Index := ((Index m + 1) mod ?n + int k) mod ?n\<rparr>)"
    by simp
  moreover have "((Index m + 1) mod ?n + int k) mod ?n = (Index m + int (Suc k)) mod ?n"
  proof -
    have "((Index m + 1) mod ?n + int k) mod ?n = (Index m + 1 + int k) mod ?n"
      by (rule mod_add_left_eq)
    also have "Index m + 1 + int k = Index m + int (Suc k)"
      by simp
    finally show ?thesis .
  qed
  ultimately show ?case
    using Update_tab [OF Suc.prems] by simp
qed

text \<open>
  Claim C9. In a session with at least one pair (the index is an index into the pair
  list), a pair-switch event sets the index to \<open>(index + 1) mod pair_count\<close> and changes
  nothing else, and as many switches as there are pairs give the session back unchanged.
\<close>

theorem pair_switch_cycles:
  assumes "inRange (Index m) (Pairs m)"
  shows "Update m (KeyMsg ''tab'') =
           Inr (m\<lparr>Index := (Index m + 1) mod int (length (Pairs m))\<rparr>, None) \<and>
         repeatUpdate (length (Pairs m)) (KeyMsg ''tab'') m = Inr m"
proof -
  have "(Index m + int (length (Pairs m))) mod int (length (Pairs m)) = Index m"
    using assms by (simp add: inRange_def)
  then have "repeatUpdate (length (Pairs m)) (KeyMsg ''tab'') m = Inr m"
    using repeatUpdate_tab [OF assms, of "length (Pairs m)"] by simp
  with Update_tab [OF assms] show ?thesis by simp
qed

theorem pair_switch_cycles_witness:
  "inRange (Index \<lparr>Pairs = [\<lparr>Source = ''s0'', Destination = ''d0''\<rparr>,
                            \<lparr>Source = ''s1'', Destination = ''d1''\<rparr>,
                            \<lparr>Source = ''s2'', Destination = ''d2''\<rparr>],
                   Index = 2, Diffs = [[], [], []], Loading = True, Syncing = {''a''}\<rparr>)
      (Pairs \<lparr>Pairs = [\<lparr>Source = ''s0'', Destination = ''d0''\<rparr>,
                            \<lparr>Source = ''s1'', Destination = ''d1''\<rparr>,
                            \<lparr>Source = ''s2'', Destination = ''d2''\<rparr>],
                   Index = 2, Diffs = [[], [], []], Loading = True, Syncing = {''a''}\<rparr>) \<and>
   Update \<lparr>Pairs = [\<lparr>Source = ''s0'', Destination = ''d0''\<rparr>,
                    \<lparr>Source = ''s1'', Destination = ''d1''\<rparr>,
                    \<lparr>Source = ''s2'', Destination = ''d2''\<rparr>],
           Index = 2, Diffs = [[], [], []], Loading = True, Syncing = {''a''}\<rparr> (KeyMsg ''tab'')
     = Inr (\<lparr>Pairs = [\<lparr>Source = ''s0'', Destination = ''d0''\<rparr>,
                    \<lparr>Source = ''s1'', Destination = ''d1''\<rparr>,
                    \<lparr>Source = ''s2'', Destination = ''d2''\<rparr>],
           Index = 0, Diffs = [[], [], []], Loading = True, Syncing = {''a''}\<rparr>, None) \<and>
   repeatUpdate 3 (KeyMsg ''tab'')
       \<lparr>Pairs = [\<lparr>Source = ''s0'', Destination = ''d0''\<rparr>,
                    \<lparr>Source = ''s1'', Destination = ''d1''\<rparr>,
                    \<lparr>Source = ''s2'', Destination = ''d2''\<rparr>],
           Index = 2, Diffs = [[], [], []], Loading = True, Syncing = {''a''}\<rparr>
     = Inr \<lparr>Pairs = [\<lparr>Source = ''s0'', Destination = ''d0''\<rparr>,
                    \<lparr>Source = ''s1'', Destination = ''d1''\<rparr>,
                    \<lparr>Source = ''s2'', Destination = ''d2''\<rparr>],
           Index = 2, Diffs = [[], [], []], Loading = True, Syncing = {''a''}\<rparr>"
proof -
  let ?m = "\<lparr>Pairs = [\<lparr>Source = ''s0'', Destination = ''d0''\<rparr>,
                    \<lparr>Source = ''s1'', Destination = ''d1''\<rparr>,
                    \<lparr>Source = ''s2'', Destination = ''d2''\<rparr>],
           Index = 2, Diffs = [[], [], []], Loading = True, Syncing = {''a''}\<rparr>"
  have r: "inRange (Index ?m) (Pairs ?m)" by (simp add: inRange_def)
  have l: "length (Pairs ?m) = 3" by simp
  have i: "(Index ?m + 1) mod int 3 = 0" by simp
  from pair_switch_cycles [OF r]
  have "Update ?m (KeyMsg ''tab'') = Inr (?m\<lparr>Index := 0\<rparr>, None) \<and>
        repeatUpdate 3 (KeyMsg ''tab'') ?m = Inr ?m"
    by (simp only: l i)
  with r show ?thesis by simp
qed

end
